theory Spec2Isabelle
  imports Complex_Main
begin

section \<open>JavaScript values used by the page script\<close>

text \<open>
  The script works on JavaScript numbers and strings. A number is \<open>NaN\<close> (the
  duration of a track whose metadata is not loaded yet), one of the two infinities
  (the duration of an unbounded stream is \<open>Infinity\<close>), or finite. A finite number
  is given by its exact value; the host computes in binary floating point, and an
  operation is modelled only where its result there is the exact one. Where it is
  not, the model gives no value (\<open>None\<close>) instead of a value the host would not
  compute. Strings are lists of code units. A thrown exception is a value of
  \<open>js_error\<close>.
\<close>

datatype js_error = SyntaxError | TypeError

datatype jsnum = NaN | PosInf | NegInf | Fin real

text \<open>A value the script writes: \<open>None\<close> when the model does not compute it.\<close>

type_synonym 'a modelled = "'a option"

text \<open>The decimal digits of a whole number, with a sign.\<close>

definition digit_char :: "nat \<Rightarrow> char" where
  "digit_char d = ''0123456789'' ! d"

fun toString_nat :: "nat \<Rightarrow> string" where
  "toString_nat n =
     (if n < 10 then [digit_char n] else toString_nat (n div 10) @ [digit_char (n mod 10)])"

declare toString_nat.simps [simp del]

definition decimal :: "int \<Rightarrow> string" where
  "decimal i = (if i < 0 then ''-'' @ toString_nat (nat (- i)) else toString_nat (nat i))"

text \<open>
  \<open>Number.prototype.toString\<close> on a whole number: its decimal digits when its
  absolute value is below \<open>10^21\<close>. From there on JavaScript prints in exponent
  notation (\<open>1e+21\<close>), which is not modelled.
\<close>

definition toString :: "int \<Rightarrow> string modelled" where
  "toString i = (if \<bar>i\<bar> < 10 ^ 21 then Some (decimal i) else None)"

text \<open>\<open>String.prototype.padStart(n, c)\<close> with a one-character filler.\<close>

definition padStart :: "nat \<Rightarrow> char \<Rightarrow> string \<Rightarrow> string" where
  "padStart n c s = replicate (n - length s) c @ s"

text \<open>
  The remainder operator \<open>%\<close> of JavaScript on finite numbers: what is left of the
  dividend after the divisor is taken off a whole number of times, counted towards
  zero. The host computes this remainder exactly.
\<close>

definition js_rem :: "real \<Rightarrow> real \<Rightarrow> real" where
  "js_rem a b = a - b * of_int (if a / b < 0 then \<lceil>a / b\<rceil> else \<lfloor>a / b\<rfloor>)"

section \<open>Utility functions\<close>

text \<open>
  \<^verbatim>\<open>
  const formatTime = (seconds) => {
    const min = Math.floor(seconds / 60);
    const sec = Math.floor(seconds % 60);
    return `${min}:${sec.toString().padStart(2, "0")}`;
  };
  \<close>
  On \<open>NaN\<close> both components are \<open>NaN\<close>, printed as the three letters, which
  \<open>padStart\<close> leaves as they are. On an infinity the quotient is that infinity and
  the remainder is \<open>NaN\<close>. On finite seconds from 0 up to \<open>2^53\<close> (fractions of a
  second included) the floor of the host's rounded quotient by 60 is the floor of the
  exact quotient, the remainder is exact, and both floors are whole numbers that print
  in decimal. Negative seconds, which no caller passes, and seconds from \<open>2^53\<close>
  on, where the rounding of the quotient can change its floor, are not modelled.
\<close>

fun formatTime :: "jsnum \<Rightarrow> string modelled" where
  "formatTime NaN = Some (''NaN'' @ '':'' @ padStart 2 (CHR ''0'') ''NaN'')"
| "formatTime PosInf = Some (''Infinity'' @ '':'' @ padStart 2 (CHR ''0'') ''NaN'')"
| "formatTime NegInf = Some (''-Infinity'' @ '':'' @ padStart 2 (CHR ''0'') ''NaN'')"
| "formatTime (Fin seconds) =
     (if 0 \<le> seconds \<and> seconds < 2 ^ 53 then
        (let min = \<lfloor>seconds / 60\<rfloor>;
             sec = \<lfloor>js_rem seconds 60\<rfloor>
         in case (toString min, toString sec) of
              (Some m, Some s) \<Rightarrow> Some (m @ '':'' @ padStart 2 (CHR ''0'') s)
            | _ \<Rightarrow> None)
      else None)"

section \<open>Typewriter effect\<close>

text \<open>
  A \<open>.typewriter\<close> element: its two attributes, the text of the first
  \<open>span\<close> inside it (when there is one) and its own text. The display target
  \<^verbatim>\<open>el.querySelector('span') || el\<close> is the span when present.
\<close>

record element =
  data_texts :: "string option"
  data_loop :: "string option"
  span :: "string option"
  own_text :: string

definition textDisplay :: "element \<Rightarrow> string" where
  "textDisplay e = (case span e of Some t \<Rightarrow> t | None \<Rightarrow> own_text e)"

definition set_textDisplay :: "string \<Rightarrow> element \<Rightarrow> element" where
  "set_textDisplay t e = (case span e of Some _ \<Rightarrow> e\<lparr>span := Some t\<rparr> | None \<Rightarrow> e\<lparr>own_text := t\<rparr>)"

text \<open>
  The closure of one running typewriter: the element, the parsed configuration, the
  three variables of \<open>tick\<close>, and the delay of the pending \<open>setTimeout(tick, delay)\<close>
  (\<open>None\<close> when no timer is pending).
\<close>

record typewriter =
  el :: element
  texts :: "string list"
  loop :: bool
  textIndex :: nat
  charIndex :: nat
  isTyping :: bool
  timer :: "nat option"

definition TYPING_SPEED :: nat where "TYPING_SPEED = 120"
definition DELETING_SPEED :: nat where "DELETING_SPEED = 60"
definition PAUSE_AFTER_TYPE :: nat where "PAUSE_AFTER_TYPE = 1200"
definition PAUSE_AFTER_DELETE :: nat where "PAUSE_AFTER_DELETE = 500"

text \<open>
  \<^verbatim>\<open>
  const tick = () => {
    const currentText = texts[textIndex] || "";
    if (isTyping) {
      if (charIndex < currentText.length) {
        textDisplayEl.textContent += currentText.charAt(charIndex++);
        setTimeout(tick, TYPING_SPEED);
      } else {
        isTyping = false;
        setTimeout(tick, PAUSE_AFTER_TYPE);
      }
    } else {
      if (charIndex > 0) {
        textDisplayEl.textContent = currentText.substring(0, --charIndex);
        setTimeout(tick, DELETING_SPEED);
      } else {
        isTyping = true;
        textIndex = (textIndex + 1) % texts.length;
        if (!loop && textIndex === 0) return;
        setTimeout(tick, PAUSE_AFTER_DELETE);
      }
    }
  };
  \<close>
  Every call consumes the timer that fired it; the field \<open>timer\<close> of the result
  is the timer the call leaves pending.
\<close>

definition tick :: "typewriter \<Rightarrow> typewriter" where
  "tick tw =
     (let currentText = (if textIndex tw < length (texts tw) then texts tw ! textIndex tw else [])
      in if isTyping tw then
           (if charIndex tw < length currentText then
              tw\<lparr>el := set_textDisplay (textDisplay (el tw) @ [currentText ! charIndex tw]) (el tw),
                 charIndex := charIndex tw + 1,
                 timer := Some TYPING_SPEED\<rparr>
            else
              tw\<lparr>isTyping := False, timer := Some PAUSE_AFTER_TYPE\<rparr>)
         else
           (if charIndex tw > 0 then
              tw\<lparr>charIndex := charIndex tw - 1,
                 el := set_textDisplay (take (charIndex tw - 1) currentText) (el tw),
                 timer := Some DELETING_SPEED\<rparr>
            else
              (let i = (textIndex tw + 1) mod length (texts tw)
               in if \<not> loop tw \<and> i = 0 then
                    tw\<lparr>isTyping := True, textIndex := i, timer := None\<rparr>
                  else
                    tw\<lparr>isTyping := True, textIndex := i, timer := Some PAUSE_AFTER_DELETE\<rparr>)))"

text \<open>
  The host runs \<open>tick\<close> again only when a timer is pending. \<open>fire\<close> is one turn
  of the timer queue for this typewriter, \<open>fires n\<close> are \<open>n\<close> turns.
\<close>

definition fire :: "typewriter \<Rightarrow> typewriter" where
  "fire tw = (case timer tw of None \<Rightarrow> tw | Some _ \<Rightarrow> tick tw)"

fun fires :: "nat \<Rightarrow> typewriter \<Rightarrow> typewriter" where
  "fires 0 tw = tw"
| "fires (Suc n) tw = fires n (fire tw)"

declare fires.simps [simp del]

text \<open>
  The end of \<open>initTypewriter\<close>, past its guard: the closure variables get their
  initial values and \<open>tick\<close> is called once, directly.
\<close>

definition startTypewriter :: "element \<Rightarrow> string list \<Rightarrow> bool \<Rightarrow> typewriter" where
  "startTypewriter e ts lp =
     tick \<lparr>el = e, texts = ts, loop = lp, textIndex = 0, charIndex = 0, isTyping = True,
           timer = None\<rparr>"

text \<open>The text shown by a running typewriter: \<open>textDisplayEl.textContent\<close>.\<close>

definition display :: "typewriter \<Rightarrow> string" where
  "display tw = textDisplay (el tw)"

text \<open>
  What a call of \<open>initTypewriter\<close> ends in: an exception, an early return that
  leaves the element as it is, or a running typewriter (after its first \<open>tick\<close>).
\<close>

datatype typewriter_init = Threw js_error | Inert element | Running typewriter

text \<open>
  \<^verbatim>\<open>
  const initTypewriter = (el) => {
    const texts = JSON.parse(el.getAttribute("data-texts") || "[]");
    const loop = el.getAttribute("data-loop") === "true";
    if (texts.length === 0) return;
    const textDisplayEl = el.querySelector('span') || el;
    let textIndex = 0; let charIndex = 0; let isTyping = true;
    ...
    tick();
  };
  \<close>
  \<open>JSON.parse\<close> is the host's parser, not code of the page: it is the parameter
  \<open>JSON_parse\<close>, which either throws (\<open>Inl\<close>) or returns the parsed array. The
  attribute is meant to hold an array of strings; parsed values of another shape are
  outside this model. The call is not inside any \<open>try\<close>, so what the parser throws
  leaves \<open>initTypewriter\<close>.
\<close>

definition initTypewriter :: "(string \<Rightarrow> js_error + string list) \<Rightarrow> element \<Rightarrow> typewriter_init" where
  "initTypewriter JSON_parse e =
     (case JSON_parse (case data_texts e of None \<Rightarrow> ''[]''
                                         | Some a \<Rightarrow> if a = [] then ''[]'' else a) of
        Inl err \<Rightarrow> Threw err
      | Inr ts \<Rightarrow>
          (let lp = (data_loop e = Some ''true'')
           in if length ts = 0 then Inert e else Running (startTypewriter e ts lp)))"

section \<open>Music player and team cards\<close>

text \<open>
  A card: its \<open>data-music\<close> attribute and its class list. An \<open>Audio\<close> object
  of the host: the fields the script reads or writes. A new object is paused, at
  position 0, with unknown duration (\<open>NaN\<close>) and full volume. The position is
  a finite number of seconds, not negative on the host.
\<close>

record card =
  data_music :: "string option"
  classList :: "string set"

record audio =
  src :: string
  volume :: real
  paused :: bool
  currentTime :: real
  duration :: jsnum

datatype timeout_action = AddShowText nat | RemoveClosing nat

text \<open>The two glyphs of the play/pause button (U+25B6 and U+23F8 in the source).\<close>

definition PLAY_GLYPH :: string where "PLAY_GLYPH = ''[play]''"
definition PAUSE_GLYPH :: string where "PAUSE_GLYPH = ''[pause]''"

text \<open>
  The state of \<open>musicPlayerController\<close> once it has passed its guard
  \<^verbatim>\<open>if (!musicPlayer || !playPauseBtn) return;\<close>: the player element (its class
  list) and the button (its text) exist; the progress bar, the time display and the
  song title may be absent (\<open>None\<close>); the value of the bar and the text of the
  time display are what the script has written there, as far as the model computes
  it. Cards are named by numbers. \<open>audios\<close> holds
  every \<open>Audio\<close> object created so far, a handle is an index into it.
  \<open>timeouts\<close> are the pending \<open>setTimeout\<close> calls, \<open>animationFrames\<close> counts the
  \<open>requestAnimationFrame(updateProgress)\<close> requests, \<open>autoplayAllowed\<close> is the
  host's media policy, \<open>console\<close> the error log.
\<close>

record player =
  musicPlayer :: "string set"
  playPauseBtn :: string
  progressBar :: "real modelled option"
  timeDisplay :: "string modelled option"
  songTitle :: "string option"
  cards :: "nat \<Rightarrow> card"
  audios :: "audio list"
  currentAudio :: "nat option"
  isPlaying :: bool
  activeCard :: "nat option"
  timeouts :: "(nat \<times> timeout_action) list"
  animationFrames :: nat
  autoplayAllowed :: bool
  console :: "string list"

text \<open>
  \<^verbatim>\<open>
  const stopAndHidePlayer = () => {
    if (currentAudio) {
      currentAudio.pause();
      currentAudio.currentTime = 0;
      currentAudio = null;
    }
    musicPlayer.classList.add("hidden");
    isPlaying = false;
    playPauseBtn.textContent = PLAY;
    activeCard = null;
  };
  \<close>
\<close>

definition stopAndHidePlayer :: "player \<Rightarrow> player" where
  "stopAndHidePlayer s =
     (let s1 = (case currentAudio s of
                  Some h \<Rightarrow>
                    s\<lparr>audios := (audios s)[h := (audios s ! h)\<lparr>paused := True, currentTime := 0\<rparr>],
                      currentAudio := None\<rparr>
                | None \<Rightarrow> s)
      in s1\<lparr>musicPlayer := insert ''hidden'' (musicPlayer s1),
             isPlaying := False,
             playPauseBtn := PLAY_GLYPH,
             activeCard := None\<rparr>)"

text \<open>
  \<^verbatim>\<open>(currentAudio.currentTime / currentAudio.duration) * 100 || 0\<close>. At position
  zero the quotient is a zero or \<open>NaN\<close>, and with an unknown or infinite duration
  it is \<open>NaN\<close> or a zero: the value is 0 in each case. At any other position with a
  finite duration the value is a rounded quotient or an infinity, which the model
  does not compute.
\<close>

definition progress_value :: "real \<Rightarrow> jsnum \<Rightarrow> real modelled" where
  "progress_value t d =
     (if t = 0 then Some 0
      else (case d of NaN \<Rightarrow> Some 0 | PosInf \<Rightarrow> Some 0 | NegInf \<Rightarrow> Some 0 | Fin _ \<Rightarrow> None))"

text \<open>The text of the time display: both times, when the model computes both.\<close>

definition time_label :: "real \<Rightarrow> jsnum \<Rightarrow> string modelled" where
  "time_label t d =
     (case (formatTime (Fin t), formatTime d) of
        (Some a, Some b) \<Rightarrow> Some (a @ '' / '' @ b)
      | _ \<Rightarrow> None)"

text \<open>
  \<^verbatim>\<open>
  const updateProgress = () => {
    if (currentAudio && isPlaying) {
      const progress = (currentAudio.currentTime / currentAudio.duration) * 100;
      progressBar.value = progress || 0;
      timeDisplay.textContent =
        `${formatTime(currentAudio.currentTime)} / ${formatTime(currentAudio.duration)}`;
      window.requestAnimationFrame(updateProgress);
    }
  };
  \<close>
  Writing a property of an absent element (\<open>null\<close>) throws a \<open>TypeError\<close>. An
  operation returns the exception it threw, if any, with the state as it left it.
\<close>

definition updateProgress :: "player \<Rightarrow> js_error option \<times> player" where
  "updateProgress s =
     (case currentAudio s of
        None \<Rightarrow> (None, s)
      | Some h \<Rightarrow>
          if \<not> isPlaying s then (None, s)
          else (case progressBar s of
                  None \<Rightarrow> (Some TypeError, s)
                | Some _ \<Rightarrow>
                    (let a = audios s ! h;
                         s1 = s\<lparr>progressBar := Some (progress_value (currentTime a) (duration a))\<rparr>
                     in case timeDisplay s1 of
                          None \<Rightarrow> (Some TypeError, s1)
                        | Some _ \<Rightarrow>
                            (None,
                             s1\<lparr>timeDisplay := Some (time_label (currentTime a) (duration a)),
                                 animationFrames := animationFrames s1 + 1\<rparr>))))"

text \<open>\<^verbatim>\<open>musicSrc.split("/").pop()\<close>: the text after the last slash.\<close>

fun split_slash :: "string \<Rightarrow> string list" where
  "split_slash [] = [[]]"
| "split_slash (c # cs) =
     (if c = CHR ''/'' then [] # split_slash cs
      else (case split_slash cs of
              [] \<Rightarrow> [[c]]
            | p # ps \<Rightarrow> (c # p) # ps))"

definition last_segment :: "string \<Rightarrow> string" where
  "last_segment m = last (split_slash m)"

text \<open>
  \<^verbatim>\<open>
  const playCardMusic = (card, musicSrc) => {
    stopAndHidePlayer();
    activeCard = card;
    currentAudio = new Audio(musicSrc);
    currentAudio.volume = 0.5;
    currentAudio.play().catch(err => console.error("Autoplay blocked:", err));
    isPlaying = true;
    musicPlayer.classList.remove("hidden");
    songTitle.textContent = musicSrc.split("/").pop();
    playPauseBtn.textContent = PAUSE;
    currentAudio.addEventListener("loadedmetadata", ...);
    currentAudio.addEventListener("ended", ...);
    updateProgress();
  };
  \<close>
  \<open>play()\<close> starts the track when the host allows it; otherwise the track stays
  paused and the rejection is logged. The two listeners run on later media events and
  change nothing now.
\<close>

definition playCardMusic :: "nat \<Rightarrow> string \<Rightarrow> player \<Rightarrow> js_error option \<times> player" where
  "playCardMusic c musicSrc s =
     (let s1 = stopAndHidePlayer s;
          s2 = s1\<lparr>activeCard := Some c\<rparr>;
          h = length (audios s2);
          s3 = s2\<lparr>audios := audios s2 @
                        [\<lparr>src = musicSrc, volume = 1, paused = True, currentTime = 0,
                          duration = NaN\<rparr>],
                  currentAudio := Some h\<rparr>;
          s4 = s3\<lparr>audios := (audios s3)[h := (audios s3 ! h)\<lparr>volume := 1 / 2\<rparr>]\<rparr>;
          s5 = (if autoplayAllowed s4
                then s4\<lparr>audios := (audios s4)[h := (audios s4 ! h)\<lparr>paused := False\<rparr>]\<rparr>
                else s4\<lparr>console := console s4 @ [''Autoplay blocked:'']\<rparr>);
          s6 = s5\<lparr>isPlaying := True\<rparr>;
          s7 = s6\<lparr>musicPlayer := musicPlayer s6 - {''hidden''}\<rparr>
      in case songTitle s7 of
           None \<Rightarrow> (Some TypeError, s7)
         | Some _ \<Rightarrow>
             updateProgress
               (s7\<lparr>songTitle := Some (last_segment musicSrc), playPauseBtn := PAUSE_GLYPH\<rparr>))"

text \<open>
  The closing branch of \<open>handleCardClick\<close> (the operation the specification calls
  \<open>closeCard\<close>):
  \<^verbatim>\<open>
      stopAndHidePlayer();
      card.classList.remove("show-text");
      card.classList.remove("animate");
      card.classList.add("closing");
      setTimeout(() => { card.classList.remove("closing"); }, 1000);
  \<close>
\<close>

definition closeCard :: "nat \<Rightarrow> player \<Rightarrow> player" where
  "closeCard c s =
     (let s1 = stopAndHidePlayer s;
          k = cards s1 c
      in s1\<lparr>cards := (cards s1)
                 (c := k\<lparr>classList := insert ''closing''
                                         (classList k - {''show-text''} - {''animate''})\<rparr>),
             timeouts := timeouts s1 @ [(1000, RemoveClosing c)]\<rparr>)"

text \<open>
  The opening steps of \<open>handleCardClick\<close> after the previously active card is
  closed:
  \<^verbatim>\<open>
      if (musicSrc) { playCardMusic(card, musicSrc); }
      card.classList.add("animate");
      setTimeout(() => { card.classList.add("show-text"); }, 1200);
  \<close>
  An empty attribute is falsy, like a missing one.
\<close>

definition playAndOpen :: "nat \<Rightarrow> player \<Rightarrow> js_error option \<times> player" where
  "playAndOpen c s =
     (case (case data_music (cards s c) of
              None \<Rightarrow> (None, s)
            | Some m \<Rightarrow> if m = [] then (None, s) else playCardMusic c m s) of
        (Some err, s1) \<Rightarrow> (Some err, s1)
      | (None, s1) \<Rightarrow>
          (None,
           s1\<lparr>cards := (cards s1)
                  (c := (cards s1 c)\<lparr>classList := insert ''animate'' (classList (cards s1 c))\<rparr>),
              timeouts := timeouts s1 @ [(1200, AddShowText c)]\<rparr>))"

text \<open>
  \<^verbatim>\<open>
  const handleCardClick = (card) => {
    const musicSrc = card.getAttribute("data-music");
    if (!card.classList.contains("animate")) {
      if (activeCard && activeCard !== card) { handleCardClick(activeCard); }
      ... open ...
    } else {
      ... close ...
    }
  };
  \<close>
  The function calls itself on the active card. In that inner call the card is the
  active card, so the inner call does not recurse again.
\<close>

function handleCardClick :: "nat \<Rightarrow> player \<Rightarrow> js_error option \<times> player" where
  "handleCardClick c s =
     (if ''animate'' \<notin> classList (cards s c) then
        (case (if activeCard s \<noteq> None \<and> activeCard s \<noteq> Some c
               then handleCardClick (the (activeCard s)) s
               else (None, s)) of
           (Some err, s1) \<Rightarrow> (Some err, s1)
         | (None, s1) \<Rightarrow> playAndOpen c s1)
      else (None, closeCard c s))"
  by pat_completeness auto
termination
  by (relation "measure (\<lambda>(c, s). if activeCard s \<noteq> None \<and> activeCard s \<noteq> Some c then 1 else 0)")
     auto

declare handleCardClick.simps [simp del]

text \<open>The callbacks of the two \<open>setTimeout\<close> calls of \<open>handleCardClick\<close>.\<close>

fun run_timeout :: "timeout_action \<Rightarrow> player \<Rightarrow> player" where
  "run_timeout (AddShowText c) s =
     s\<lparr>cards := (cards s)
            (c := (cards s c)\<lparr>classList := insert ''show-text'' (classList (cards s c))\<rparr>)\<rparr>"
| "run_timeout (RemoveClosing c) s =
     s\<lparr>cards := (cards s)
            (c := (cards s c)\<lparr>classList := classList (cards s c) - {''closing''}\<rparr>)\<rparr>"

text \<open>
  The discipline of the single track: the current handle, if any, names an existing
  \<open>Audio\<close> object, and every other object created so far is paused and rewound.
\<close>

definition released :: "audio \<Rightarrow> bool" where
  "released a \<longleftrightarrow> paused a \<and> currentTime a = 0"

definition one_live_track :: "player \<Rightarrow> bool" where
  "one_live_track s \<longleftrightarrow>
     (case currentAudio s of None \<Rightarrow> True | Some h \<Rightarrow> h < length (audios s)) \<and>
     (\<forall>h \<in> {0..<length (audios s)}. currentAudio s \<noteq> Some h \<longrightarrow> released (audios s ! h))"

text \<open>The handles of the tracks that are playing.\<close>

definition live_tracks :: "player \<Rightarrow> nat list" where
  "live_tracks s = filter (\<lambda>h. \<not> paused (audios s ! h)) [0..<length (audios s)]"

text \<open>
  What a run of a handler does to the tracks that existed before it: none is lost, a
  released track stays released, and if a new handle was created then every track
  that existed before is released.
\<close>

definition tears_down :: "player \<Rightarrow> player \<Rightarrow> bool" where
  "tears_down s s' \<longleftrightarrow>
     length (audios s) \<le> length (audios s') \<and>
     (\<forall>h \<in> {0..<length (audios s)}. released (audios s ! h) \<longrightarrow> released (audios s' ! h)) \<and>
     (length (audios s) < length (audios s') \<longrightarrow>
        (\<forall>h \<in> {0..<length (audios s)}. released (audios s' ! h)))"

text \<open>
  The elements \<open>musicPlayerController\<close> looks up when the script loads, each absent
  (\<open>None\<close>) or present with the state the script uses, the cards of the page and
  the host's media policy.
\<close>

record page =
  music_player_el :: "string set option"
  play_pause_el :: "string option"
  progress_bar_el :: "real modelled option"
  time_el :: "string modelled option"
  song_title_el :: "string option"
  card_els :: "nat \<Rightarrow> card"
  autoplay :: bool

text \<open>
  \<^verbatim>\<open>
  const musicPlayerController = (() => {
    ... getElementById / querySelector ...
    let currentAudio = null; let isPlaying = false; let activeCard = null;
    if (!musicPlayer || !playPauseBtn) return;
    ... card click listeners ...
    playPauseBtn.addEventListener("click", ...);
    progressBar.addEventListener("input", ...);
  })();
  \<close>
  Without the player element or the button the controller returns before it
  registers a listener (\<open>None\<close>: no state, clicks do nothing). Otherwise the card
  and button listeners are registered, and the last statement throws when the
  progress bar is absent.
\<close>

definition musicPlayerController :: "page \<Rightarrow> js_error option \<times> player option" where
  "musicPlayerController pg =
     (case music_player_el pg of
        None \<Rightarrow> (None, None)
      | Some mp \<Rightarrow>
          (case play_pause_el pg of
             None \<Rightarrow> (None, None)
           | Some pp \<Rightarrow>
               (let s = \<lparr>musicPlayer = mp, playPauseBtn = pp,
                         progressBar = progress_bar_el pg, timeDisplay = time_el pg,
                         songTitle = song_title_el pg, cards = card_els pg,
                         audios = [], currentAudio = None, isPlaying = False,
                         activeCard = None, timeouts = [], animationFrames = 0,
                         autoplayAllowed = autoplay pg, console = []\<rparr>
                in case progress_bar_el pg of
                     None \<Rightarrow> (Some TypeError, Some s)
                   | Some _ \<Rightarrow> (None, Some s))))"

text \<open>
  A sequence of card clicks. Every click is an event of its own: an exception thrown
  by one handler run does not stop the next click from being handled.
\<close>

fun clicks :: "nat list \<Rightarrow> player \<Rightarrow> player" where
  "clicks [] s = s"
| "clicks (c # cs) s = clicks cs (snd (handleCardClick c s))"

section \<open>Profile overlay\<close>

record stats =
  gender :: string
  age :: string
  height :: string
  weight :: string

record member =
  model :: string
  role :: string
  Bday :: string
  Contact :: string
  Specialty :: string
  stats :: stats

text \<open>The static table \<open>memberData\<close>, in the order of the source.\<close>

definition memberData :: "(string \<times> member) list" where
  "memberData =
     [(''Angelo Jesus Y. Caballero'',
       \<lparr>model = ''model/source/Caballero.glb'', role = ''| FULL STACK DEVELOPER |'',
        Bday = ''03/18/2006'', Contact = ''ajcaballero@kld.edu.ph'', Specialty = ''FullStack'',
        stats = \<lparr>gender = ''Male'', age = ''19'', height = ''175cm'', weight = ''60kg''\<rparr>\<rparr>),
      (''Alexandra Lykemae T. Concepcion'',
       \<lparr>model = ''model/source/Concepcion.glb'', role = ''| PROJECT MANAGER |'',
        Bday = ''09/08/2005'', Contact = ''alconcepcion@kld.edu.ph'',
        Specialty = ''Support specialist'',
        stats = \<lparr>gender = ''Female'', age = ''20'', height = ''150cm'', weight = ''50kg''\<rparr>\<rparr>),
      (''Shairil Kriztel O. Capungcol'',
       \<lparr>model = ''model/source/Capungcol.glb'', role = ''| BACK END DEVELOPER |'',
        Bday = ''03/18/2006'', Contact = ''skcapungcol@kld.edu.ph'', Specialty = ''Back-end'',
        stats = \<lparr>gender = ''Female'', age = ''20'', height = ''149cm'', weight = ''49kg''\<rparr>\<rparr>),
      (''Kurt Andrew F. Dapat'',
       \<lparr>model = ''model/source/Dapat.glb'', role = ''| DESIGNER |'',
        Bday = ''03/18/2006'', Contact = ''kadapat@kld.edu.ph'', Specialty = ''UI/UX Design'',
        stats = \<lparr>gender = ''Male'', age = ''18'', height = ''154cm'', weight = ''43kg''\<rparr>\<rparr>),
      (''Jovan C. Certifico'',
       \<lparr>model = ''model/source/Certifico.glb'', role = ''| FRONT END DEVELOPER |'',
        Bday = ''03/18/2006'', Contact = ''jcertifico@kld.edu.ph'', Specialty = ''Front-end'',
        stats = \<lparr>gender = ''Male'', age = ''19'', height = ''162cm'', weight = ''53kg''\<rparr>\<rparr>)]"

text \<open>
  The elements of the overlay, each absent (\<open>None\<close>) or present: the overlay with
  its class list, the model viewer with its \<open>src\<close> attribute, the others with
  their text.
\<close>

record overlay_page =
  overlay :: "string set option"
  profileModel :: "string option"
  profileName :: "string option"
  profileRole :: "string option"
  bioBday :: "string option"
  bioContact :: "string option"
  bioSpecialty :: "string option"
  statGender :: "string option"
  statAge :: "string option"
  statHeight :: "string option"
  statWeight :: "string option"

text \<open>
  \<open>memberData\<close> is an object literal, so \<open>memberData[name]\<close> finds the five
  records and, for every other name, what the object inherits from
  \<open>Object.prototype\<close>: functions, the prototype object itself under
  \<open>__proto__\<close>. These are the names \<open>Object.prototype\<close> defines (ECMAScript,
  with its annex for browsers). An inherited value is truthy and has none of the
  fields of a record. Any other name gives \<open>undefined\<close>.
\<close>

definition Object_prototype_names :: "string list" where
  "Object_prototype_names =
     [''constructor'', ''__defineGetter__'', ''__defineSetter__'', ''hasOwnProperty'',
      ''__lookupGetter__'', ''__lookupSetter__'', ''isPrototypeOf'', ''propertyIsEnumerable'',
      ''toString'', ''valueOf'', ''__proto__'', ''toLocaleString'']"

datatype property = Own member | Inherited | Undefined

definition memberData_get :: "string \<Rightarrow> property" where
  "memberData_get name =
     (case map_of memberData name of
        Some d \<Rightarrow> Own d
      | None \<Rightarrow> if name \<in> set Object_prototype_names then Inherited else Undefined)"

text \<open>
  A field of the value found, \<open>data.role\<close> and the like: the field of a record,
  \<open>undefined\<close> (\<open>None\<close>) on an inherited value. Written to \<open>textContent\<close>,
  \<open>undefined\<close> gives the empty text; passed to \<open>setAttribute\<close>, it gives the
  text \<open>undefined\<close>.
\<close>

definition field :: "(member \<Rightarrow> 'a) \<Rightarrow> property \<Rightarrow> 'a option" where
  "field f data = (case data of Own d \<Rightarrow> Some (f d) | _ \<Rightarrow> None)"

definition as_textContent :: "string option \<Rightarrow> string" where
  "as_textContent v = (case v of Some t \<Rightarrow> t | None \<Rightarrow> [])"

definition as_attribute :: "string option \<Rightarrow> string" where
  "as_attribute v = (case v of Some t \<Rightarrow> t | None \<Rightarrow> ''undefined'')"

text \<open>\<^verbatim>\<open>if (x) x.textContent = v;\<close> for an element that may be absent.\<close>

definition set_if_present :: "string \<Rightarrow> string option \<Rightarrow> string option" where
  "set_if_present v x = (case x of None \<Rightarrow> None | Some _ \<Rightarrow> Some v)"

text \<open>
  \<^verbatim>\<open>
  const openOverlay = (name) => {
    const data = memberData[name];
    if (!data || !overlay) return;
    profileName.textContent = name;
    profileRole.textContent = data.role;
    if (profileModel) profileModel.setAttribute("src", data.model);
    if (bioBday) bioBday.textContent = data.Bday;
    if (bioContact) bioContact.textContent = data.Contact;
    if (bioSpecialty) bioSpecialty.textContent = data.Specialty;
    const stats = data.stats;
    if (statGender) statGender.textContent = stats.gender;
    if (statAge) statAge.textContent = stats.age;
    if (statHeight) statHeight.textContent = stats.height;
    if (statWeight) statWeight.textContent = stats.weight;
    overlay.classList.add("active");
  };
  \<close>
  The name and the role are written without a test for the element. When
  \<open>data.stats\<close> is \<open>undefined\<close>, the first of the four statistics whose element
  is present reads a property of \<open>undefined\<close> and throws.
\<close>

definition openOverlay :: "string \<Rightarrow> overlay_page \<Rightarrow> js_error option \<times> overlay_page" where
  "openOverlay name p =
     (let data = memberData_get name
      in if data = Undefined then (None, p)
         else
          (case overlay p of
             None \<Rightarrow> (None, p)
           | Some cls \<Rightarrow>
               (case profileName p of
                  None \<Rightarrow> (Some TypeError, p)
                | Some _ \<Rightarrow>
                    (let p1 = p\<lparr>profileName := Some name\<rparr>
                     in case profileRole p1 of
                          None \<Rightarrow> (Some TypeError, p1)
                        | Some _ \<Rightarrow>
                            (let p2 = p1\<lparr>profileRole := Some (as_textContent (field role data)),
                                   profileModel :=
                                     set_if_present (as_attribute (field model data)) (profileModel p1),
                                   bioBday :=
                                     set_if_present (as_textContent (field Bday data)) (bioBday p1),
                                   bioContact :=
                                     set_if_present (as_textContent (field Contact data)) (bioContact p1),
                                   bioSpecialty :=
                                     set_if_present (as_textContent (field Specialty data))
                                       (bioSpecialty p1)\<rparr>
                             in case field stats data of
                                  Some st \<Rightarrow>
                                    (None,
                                     p2\<lparr>statGender := set_if_present (gender st) (statGender p2),
                                        statAge := set_if_present (age st) (statAge p2),
                                        statHeight := set_if_present (height st) (statHeight p2),
                                        statWeight := set_if_present (weight st) (statWeight p2),
                                        overlay := Some (insert ''active'' cls)\<rparr>)
                                | None \<Rightarrow>
                                    if statGender p2 = None \<and> statAge p2 = None
                                       \<and> statHeight p2 = None \<and> statWeight p2 = None
                                    then (None, p2\<lparr>overlay := Some (insert ''active'' cls)\<rparr>)
                                    else (Some TypeError, p2))))))"

text \<open>\<^verbatim>\<open>const closeOverlay = () => { if (overlay) overlay.classList.remove("active"); };\<close>\<close>

definition closeOverlay :: "overlay_page \<Rightarrow> overlay_page" where
  "closeOverlay p =
     (case overlay p of None \<Rightarrow> p | Some cls \<Rightarrow> p\<lparr>overlay := Some (cls - {''active''})\<rparr>)"

section \<open>Example pages\<close>

text \<open>
  A page with every element of the player, two cards with music (numbers 0 and 1)
  and cards without music, on a host that allows playback; and an overlay with every
  element. \<open>example_player\<close> is the state of the controller after loading that page.
\<close>

definition example_page :: page where
  "example_page =
     \<lparr>music_player_el = Some {''hidden''}, play_pause_el = Some PLAY_GLYPH,
      progress_bar_el = Some (Some 0), time_el = Some (Some ''0:00 / 0:00''),
      song_title_el = Some [],
      card_els = (\<lambda>c. if c = 0 then \<lparr>data_music = Some ''music/a.mp3'', classList = {''card''}\<rparr>
                        else if c = 1 then \<lparr>data_music = Some ''music/b.mp3'', classList = {''card''}\<rparr>
                        else \<lparr>data_music = None, classList = {''card''}\<rparr>),
      autoplay = True\<rparr>"

definition example_player :: player where
  "example_player =
     \<lparr>musicPlayer = {''hidden''}, playPauseBtn = PLAY_GLYPH, progressBar = Some (Some 0),
      timeDisplay = Some (Some ''0:00 / 0:00''), songTitle = Some [],
      cards = card_els example_page,
      audios = [], currentAudio = None, isPlaying = False, activeCard = None, timeouts = [],
      animationFrames = 0, autoplayAllowed = True, console = []\<rparr>"

text \<open>The player after a click on card 0 of the loaded example page.\<close>

definition example_playing :: player where
  "example_playing = snd (handleCardClick 0 example_player)"

definition example_overlay :: overlay_page where
  "example_overlay =
     \<lparr>overlay = Some {}, profileModel = Some [], profileName = Some [], profileRole = Some [],
      bioBday = Some [], bioContact = Some [], bioSpecialty = Some [], statGender = Some [],
      statAge = Some [], statHeight = Some [], statWeight = Some []\<rparr>"

section \<open>Properties of the time formatter\<close>

lemma toString_nat_digit: "n < 10 \<Longrightarrow> toString_nat n = [digit_char n]"
  by (simp add: toString_nat.simps)

lemma toString_nat_two: "10 \<le> n \<Longrightarrow> n < 100 \<Longrightarrow>
    toString_nat n = [digit_char (n div 10), digit_char (n mod 10)]"
proof -
  assume a: "10 \<le> n" and b: "n < 100"
  from b have "n div 10 < 10" by simp
  then have "toString_nat (n div 10) = [digit_char (n div 10)]"
    by (rule toString_nat_digit)
  with a show ?thesis
    by (subst toString_nat.simps) simp
qed

lemma padStart_seconds: "n < 60 \<Longrightarrow>
    padStart 2 (CHR ''0'') (toString_nat n) = [digit_char (n div 10), digit_char (n mod 10)]"
proof (cases "n < 10")
  case True
  then show ?thesis
    by (simp add: toString_nat_digit padStart_def digit_char_def)
next
  case False
  assume "n < 60"
  with False show ?thesis
    by (simp add: toString_nat_two padStart_def)
qed

text \<open>The whole minutes and the whole seconds of the last minute.\<close>

lemma floor_minutes: "\<lfloor>q / 60\<rfloor> = \<lfloor>q\<rfloor> div 60" for q :: real
  using floor_divide_real_eq_div [of 60 q] by simp

lemma floor_seconds:
  assumes "0 \<le> q"
  shows "\<lfloor>js_rem q 60\<rfloor> = \<lfloor>q\<rfloor> mod 60"
proof -
  from assms have "\<not> q / 60 < 0" by simp
  then have "js_rem q 60 = q - 60 * of_int \<lfloor>q / 60\<rfloor>"
    by (simp add: js_rem_def)
  also have "\<dots> = q - of_int (60 * (\<lfloor>q\<rfloor> div 60))"
    by (simp add: floor_minutes)
  finally have "\<lfloor>js_rem q 60\<rfloor> = \<lfloor>q\<rfloor> - 60 * (\<lfloor>q\<rfloor> div 60)"
    by (simp only: floor_diff_of_int)
  then show ?thesis by (simp add: minus_mult_div_eq_mod)
qed

lemma formatTime_finite:
  assumes "0 \<le> q" and "q < 2 ^ 53"
  shows "formatTime (Fin q) =
    Some (decimal (\<lfloor>q\<rfloor> div 60) @ '':'' @
          [digit_char (nat (\<lfloor>q\<rfloor> mod 60) div 10), digit_char (nat (\<lfloor>q\<rfloor> mod 60) mod 10)])"
proof -
  have f0: "0 \<le> \<lfloor>q\<rfloor>" using assms(1) by simp
  have "\<lfloor>q\<rfloor> < 2 ^ 53" using assms(2) by (simp add: floor_less_iff)
  moreover have "\<lfloor>q\<rfloor> div 60 \<le> \<lfloor>q\<rfloor>"
    using zdiv_mono2 [of "\<lfloor>q\<rfloor>" 1 60] f0 by simp
  ultimately have "\<lfloor>q\<rfloor> div 60 < 2 ^ 53" by (rule le_less_trans [rotated])
  moreover have "0 \<le> \<lfloor>q\<rfloor> div 60" using f0 by (rule pos_imp_zdiv_nonneg_iff [THEN iffD2, rotated]) simp
  ultimately have m: "toString (\<lfloor>q\<rfloor> div 60) = Some (decimal (\<lfloor>q\<rfloor> div 60))"
    by (simp add: toString_def)
  have s0: "0 \<le> \<lfloor>q\<rfloor> mod 60" and s1: "\<lfloor>q\<rfloor> mod 60 < 60" by simp_all
  have s2: "\<not> \<lfloor>q\<rfloor> mod 60 < 0" using s0 by linarith
  have big: "(60::int) < 10 ^ 21" by simp
  have s3: "\<bar>\<lfloor>q\<rfloor> mod 60\<bar> < 10 ^ 21" using s0 s1 big by linarith
  have s: "toString (\<lfloor>q\<rfloor> mod 60) = Some (toString_nat (nat (\<lfloor>q\<rfloor> mod 60)))"
    unfolding toString_def decimal_def using s2 s3 by (simp only: if_True if_False)
  have "nat (\<lfloor>q\<rfloor> mod 60) < 60" using s1 by simp
  then have p: "padStart 2 (CHR ''0'') (toString_nat (nat (\<lfloor>q\<rfloor> mod 60))) =
      [digit_char (nat (\<lfloor>q\<rfloor> mod 60) div 10), digit_char (nat (\<lfloor>q\<rfloor> mod 60) mod 10)]"
    by (rule padStart_seconds)
  show ?thesis
    using assms by (simp add: floor_minutes floor_seconds m s p)
qed

lemma formatTime_zero: "formatTime (Fin 0) = Some ''0:00''"
  using formatTime_finite [of 0]
  by (simp add: decimal_def toString_nat_digit digit_char_def del: formatTime.simps)

text \<open>
  Claim C4 says that the seconds component is always zero-padded to two digits. The
  duration of a track is \<open>NaN\<close> until its metadata is loaded, and
  \<open>updateProgress\<close> formats it at every card open: the result is \<open>NaN:NaN\<close>,
  whose seconds component is three letters.
\<close>

theorem formatTime_unknown_duration_counterexample:
  "formatTime NaN = Some ''NaN:NaN''"
  by (simp add: padStart_def)

text \<open>
  Claim C4, amended. For a finite duration of \<open>q\<close> seconds, from 0 up to
  \<open>2^53\<close> and with any fraction of a second, the time formatter returns the whole
  minutes in decimal, a colon, and the whole seconds of the last minute written with
  exactly two digits (a leading zero below ten). In particular
  \<open>format(0) = "0:00"\<close>, \<open>format(65) = "1:05"\<close>, \<open>format(599) = "9:59"\<close>
  and \<open>format(3600) = "60:00"\<close>.
\<close>

theorem formatTime_minutes_seconds:
  "0 \<le> q \<Longrightarrow> q < 2 ^ 53 \<Longrightarrow>
     formatTime (Fin q) =
       Some (decimal (\<lfloor>q\<rfloor> div 60) @ '':'' @
             [digit_char (nat (\<lfloor>q\<rfloor> mod 60) div 10), digit_char (nat (\<lfloor>q\<rfloor> mod 60) mod 10)])
     \<and> formatTime (Fin 0) = Some ''0:00''
     \<and> formatTime (Fin 65) = Some ''1:05''
     \<and> formatTime (Fin 599) = Some ''9:59''
     \<and> formatTime (Fin 3600) = Some ''60:00''"
proof -
  assume q: "0 \<le> q" "q < 2 ^ 53"
  have e0: "formatTime (Fin 0) = Some ''0:00''"
    using formatTime_finite [of 0]
    by (simp add: decimal_def toString_nat_digit digit_char_def del: formatTime.simps)
  have e65: "formatTime (Fin 65) = Some ''1:05''"
    using formatTime_finite [of 65]
    by (simp add: decimal_def toString_nat_digit digit_char_def del: formatTime.simps)
  have e599: "formatTime (Fin 599) = Some ''9:59''"
    using formatTime_finite [of 599]
    by (simp add: decimal_def toString_nat_digit digit_char_def del: formatTime.simps)
  have e3600: "formatTime (Fin 3600) = Some ''60:00''"
    using formatTime_finite [of 3600]
    by (simp add: decimal_def toString_nat_two digit_char_def del: formatTime.simps)
  from formatTime_finite [OF q] e0 e65 e599 e3600 show ?thesis by simp
qed

theorem formatTime_minutes_seconds_witness:
  "(0::real) \<le> 1509 / 2 \<and> (1509::real) / 2 < 2 ^ 53
   \<and> formatTime (Fin (1509 / 2)) = Some ''12:34''"
  using formatTime_minutes_seconds [of "1509 / 2"]
  by (simp add: decimal_def toString_nat_two digit_char_def del: formatTime.simps)

section \<open>Properties of the typewriter\<close>

lemma textDisplay_set: "textDisplay (set_textDisplay v e) = v"
  by (simp add: textDisplay_def set_textDisplay_def split: option.splits)

lemma set_textDisplay_twice: "set_textDisplay v (set_textDisplay w e) = set_textDisplay v e"
  by (simp add: set_textDisplay_def split: option.splits)

lemma set_textDisplay_same: "set_textDisplay (textDisplay e) e = e"
  by (simp add: textDisplay_def set_textDisplay_def split: option.splits)

lemma fires_stopped: "timer tw = None \<Longrightarrow> fires n tw = tw"
  by (induction n) (simp_all add: fires.simps fire_def)

lemma fires_add: "fires (m + n) tw = fires n (fires m tw)"
  by (induction m arbitrary: tw) (simp_all add: fires.simps)

lemma fire_pending: "timer tw \<noteq> None \<Longrightarrow> fire tw = tick tw"
  by (auto simp: fire_def)

lemma tick_ignores_timer: "tick (tw\<lparr>timer := x\<rparr>) = tick tw"
  by (simp add: tick_def Let_def)

lemma tick_type:
  assumes "isTyping tw" and "textIndex tw < length (texts tw)"
    and "charIndex tw < length (texts tw ! textIndex tw)"
  shows "tick tw =
    tw\<lparr>el := set_textDisplay (display tw @ [texts tw ! textIndex tw ! charIndex tw]) (el tw),
       charIndex := Suc (charIndex tw), timer := Some TYPING_SPEED\<rparr>"
  using assms by (simp add: tick_def display_def)

lemma tick_pause:
  assumes "isTyping tw" and "textIndex tw < length (texts tw)"
    and "charIndex tw = length (texts tw ! textIndex tw)"
  shows "tick tw = tw\<lparr>isTyping := False, timer := Some PAUSE_AFTER_TYPE\<rparr>"
  using assms by (simp add: tick_def)

lemma tick_delete:
  assumes "\<not> isTyping tw" and "textIndex tw < length (texts tw)" and "0 < charIndex tw"
  shows "tick tw =
    tw\<lparr>charIndex := charIndex tw - 1,
       el := set_textDisplay (take (charIndex tw - 1) (texts tw ! textIndex tw)) (el tw),
       timer := Some DELETING_SPEED\<rparr>"
  using assms by (simp add: tick_def)

lemma tick_next:
  assumes "\<not> isTyping tw" and "charIndex tw = 0"
  shows "tick tw =
    tw\<lparr>isTyping := True, textIndex := (textIndex tw + 1) mod length (texts tw),
       timer := (if \<not> loop tw \<and> (textIndex tw + 1) mod length (texts tw) = 0 then None
                 else Some PAUSE_AFTER_DELETE)\<rparr>"
  using assms by (simp add: tick_def Let_def)

lemma typing_phase:
  assumes "isTyping tw" and "timer tw \<noteq> None" and "textIndex tw < length (texts tw)"
    and "charIndex tw + k \<le> length (texts tw ! textIndex tw)"
  shows "fires k tw =
    tw\<lparr>el := set_textDisplay
               (display tw @ take k (drop (charIndex tw) (texts tw ! textIndex tw))) (el tw),
       charIndex := charIndex tw + k,
       timer := (if k = 0 then timer tw else Some TYPING_SPEED)\<rparr>"
  using assms
proof (induction k arbitrary: tw)
  case 0
  show ?case by (simp add: fires.simps display_def set_textDisplay_same)
next
  case (Suc k)
  let ?cur = "texts tw ! textIndex tw"
  from Suc.prems have lt: "charIndex tw < length ?cur" by simp
  have step: "tick tw =
      tw\<lparr>el := set_textDisplay (display tw @ [?cur ! charIndex tw]) (el tw),
         charIndex := Suc (charIndex tw), timer := Some TYPING_SPEED\<rparr>"
    using Suc.prems(1,3) lt by (rule tick_type)
  have "fires (Suc k) tw = fires k (tick tw)"
    using Suc.prems(2) by (simp add: fires.simps fire_pending)
  also have "\<dots> = (tick tw)\<lparr>el := set_textDisplay
               (display (tick tw) @ take k (drop (charIndex (tick tw)) (texts (tick tw) ! textIndex (tick tw))))
               (el (tick tw)),
       charIndex := charIndex (tick tw) + k,
       timer := (if k = 0 then timer (tick tw) else Some TYPING_SPEED)\<rparr>"
    using Suc.prems by (intro Suc.IH) (simp_all add: step)
  also have "\<dots> = tw\<lparr>el := set_textDisplay
               (display tw @ take (Suc k) (drop (charIndex tw) ?cur)) (el tw),
       charIndex := charIndex tw + Suc k,
       timer := (if Suc k = 0 then timer tw else Some TYPING_SPEED)\<rparr>"
    using lt
    by (simp add: step display_def textDisplay_set set_textDisplay_twice
        Cons_nth_drop_Suc [symmetric])
  finally show ?case .
qed

lemma deleting_phase:
  assumes "\<not> isTyping tw" and "timer tw \<noteq> None" and "textIndex tw < length (texts tw)"
    and "Suc k \<le> charIndex tw"
  shows "fires (Suc k) tw =
    tw\<lparr>charIndex := charIndex tw - Suc k,
       el := set_textDisplay (take (charIndex tw - Suc k) (texts tw ! textIndex tw)) (el tw),
       timer := Some DELETING_SPEED\<rparr>"
  using assms
proof (induction k arbitrary: tw)
  case 0
  then show ?case by (simp add: fires.simps fire_pending tick_delete)
next
  case (Suc k)
  have step: "tick tw =
      tw\<lparr>charIndex := charIndex tw - 1,
         el := set_textDisplay (take (charIndex tw - 1) (texts tw ! textIndex tw)) (el tw),
         timer := Some DELETING_SPEED\<rparr>"
    using Suc.prems by (intro tick_delete) simp_all
  have "fires (Suc (Suc k)) tw = fires (Suc k) (tick tw)"
    using Suc.prems(2) by (simp add: fires.simps fire_pending)
  also have "\<dots> = (tick tw)\<lparr>charIndex := charIndex (tick tw) - Suc k,
       el := set_textDisplay (take (charIndex (tick tw) - Suc k) (texts (tick tw) ! textIndex (tick tw)))
               (el (tick tw)),
       timer := Some DELETING_SPEED\<rparr>"
    using Suc.prems by (intro Suc.IH) (simp_all add: step)
  also have "\<dots> = tw\<lparr>charIndex := charIndex tw - Suc (Suc k),
       el := set_textDisplay (take (charIndex tw - Suc (Suc k)) (texts tw ! textIndex tw)) (el tw),
       timer := Some DELETING_SPEED\<rparr>"
    by (simp add: step set_textDisplay_twice)
  finally show ?case .
qed


text \<open>One full cycle on the current string, from the state that is about to type it.\<close>

lemma cycle_typing:
  assumes "isTyping p" and "timer p \<noteq> None" and "textIndex p < length (texts p)"
    and "charIndex p = 0" and "j \<le> length (texts p ! textIndex p)"
  shows "fires j p =
    p\<lparr>el := set_textDisplay (display p @ take j (texts p ! textIndex p)) (el p),
      charIndex := j, timer := (if j = 0 then timer p else Some TYPING_SPEED)\<rparr>"
  using typing_phase [of p j] assms by simp

lemma fires_one: "fires 1 tw = fire tw"
  by (simp add: fires.simps)

lemma cycle_pause:
  assumes "isTyping p" and "timer p \<noteq> None" and "textIndex p < length (texts p)"
    and "charIndex p = 0"
  shows "fires (length (texts p ! textIndex p) + 1) p =
    p\<lparr>el := set_textDisplay (display p @ texts p ! textIndex p) (el p),
      charIndex := length (texts p ! textIndex p), isTyping := False,
      timer := Some PAUSE_AFTER_TYPE\<rparr>"
proof -
  define n where "n = length (texts p ! textIndex p)"
  define a where "a = fires n p"
  have a: "a = p\<lparr>el := set_textDisplay (display p @ texts p ! textIndex p) (el p),
      charIndex := n, timer := (if n = 0 then timer p else Some TYPING_SPEED)\<rparr>"
    unfolding a_def n_def using cycle_typing [OF assms le_refl] by simp
  have pend: "timer a \<noteq> None" using assms(2) by (simp add: a)
  have "fires (n + 1) p = fires 1 (fires n p)"
    by (rule fires_add)
  also have "\<dots> = fire a"
    unfolding a_def by (rule fires_one)
  also have "\<dots> = tick a" using pend by (rule fire_pending)
  also have "\<dots> = a\<lparr>isTyping := False, timer := Some PAUSE_AFTER_TYPE\<rparr>"
    using assms by (intro tick_pause) (simp_all add: a n_def)
  finally show ?thesis unfolding n_def [symmetric] by (simp add: a)
qed

lemma cycle_deleting:
  assumes "isTyping p" and "timer p \<noteq> None" and "textIndex p < length (texts p)"
    and "charIndex p = 0" and "1 \<le> i" and "i \<le> length (texts p ! textIndex p)"
  shows "fires (length (texts p ! textIndex p) + 1 + i) p =
    p\<lparr>el := set_textDisplay (take (length (texts p ! textIndex p) - i) (texts p ! textIndex p)) (el p),
      charIndex := length (texts p ! textIndex p) - i, isTyping := False,
      timer := Some DELETING_SPEED\<rparr>"
proof -
  define n where "n = length (texts p ! textIndex p)"
  define b where "b = fires (n + 1) p"
  have b: "b = p\<lparr>el := set_textDisplay (display p @ texts p ! textIndex p) (el p),
      charIndex := n, isTyping := False, timer := Some PAUSE_AFTER_TYPE\<rparr>"
    unfolding b_def n_def by (rule cycle_pause [OF assms(1-4)])
  from assms(5) obtain k where k: "i = Suc k" by (cases i) simp_all
  have "fires (n + 1 + i) p = fires i (fires (n + 1) p)"
    by (rule fires_add)
  also have "\<dots> = fires (Suc k) b"
    unfolding b_def k ..
  also have "\<dots> = b\<lparr>charIndex := charIndex b - Suc k,
       el := set_textDisplay (take (charIndex b - Suc k) (texts b ! textIndex b)) (el b),
       timer := Some DELETING_SPEED\<rparr>"
    using assms k by (intro deleting_phase) (simp_all add: b n_def)
  finally show ?thesis
    unfolding n_def [symmetric] by (simp add: b k set_textDisplay_twice)
qed

lemma cycle_last_delete:
  assumes "isTyping p" and "timer p \<noteq> None" and "textIndex p < length (texts p)"
    and "charIndex p = 0"
  shows "fires (2 * length (texts p ! textIndex p) + 1) p =
    p\<lparr>el := (if texts p ! textIndex p = [] then el p else set_textDisplay [] (el p)),
      charIndex := 0, isTyping := False,
      timer := Some (if texts p ! textIndex p = [] then PAUSE_AFTER_TYPE else DELETING_SPEED)\<rparr>"
proof (cases "texts p ! textIndex p = []")
  case True
  with cycle_pause [OF assms] show ?thesis
    by (simp add: display_def set_textDisplay_same)
next
  case False
  then have "1 \<le> length (texts p ! textIndex p)" by (simp add: Suc_le_eq)
  from cycle_deleting [OF assms this le_refl] False
  have "fires (length (texts p ! textIndex p) + 1 + length (texts p ! textIndex p)) p =
     p\<lparr>el := set_textDisplay [] (el p), charIndex := 0, isTyping := False,
       timer := Some DELETING_SPEED\<rparr>"
    by simp
  moreover have "length (texts p ! textIndex p) + 1 + length (texts p ! textIndex p) =
     2 * length (texts p ! textIndex p) + 1" by simp
  ultimately show ?thesis using False by (simp only: if_False)
qed

lemma cycle_end:
  assumes "isTyping p" and "timer p \<noteq> None" and "textIndex p < length (texts p)"
    and "charIndex p = 0"
  shows "fires (2 * length (texts p ! textIndex p) + 2) p =
    p\<lparr>el := (if texts p ! textIndex p = [] then el p else set_textDisplay [] (el p)),
      textIndex := (textIndex p + 1) mod length (texts p),
      timer := (if \<not> loop p \<and> (textIndex p + 1) mod length (texts p) = 0 then None
                else Some PAUSE_AFTER_DELETE)\<rparr>"
proof -
  define n where "n = length (texts p ! textIndex p)"
  define c where "c = fires (2 * n + 1) p"
  have c: "c = p\<lparr>el := (if texts p ! textIndex p = [] then el p else set_textDisplay [] (el p)),
      charIndex := 0, isTyping := False,
      timer := Some (if texts p ! textIndex p = [] then PAUSE_AFTER_TYPE else DELETING_SPEED)\<rparr>"
    unfolding c_def n_def by (rule cycle_last_delete [OF assms])
  have "fires (2 * n + 1 + 1) p = fires 1 (fires (2 * n + 1) p)"
    by (rule fires_add)
  moreover have "2 * n + 1 + 1 = 2 * n + 2" by simp
  ultimately have "fires (2 * n + 2) p = fire c"
    unfolding c_def by (simp only: fires_one)
  also have "\<dots> = tick c" by (rule fire_pending) (simp add: c)
  also have "\<dots> = c\<lparr>isTyping := True, textIndex := (textIndex c + 1) mod length (texts c),
       timer := (if \<not> loop c \<and> (textIndex c + 1) mod length (texts c) = 0 then None
                 else Some PAUSE_AFTER_DELETE)\<rparr>"
    by (rule tick_next) (simp_all add: c)
  finally show ?thesis unfolding n_def [symmetric] using assms(1,4) by (simp add: c)
qed

text \<open>The first call of \<open>tick\<close> is the first turn of a chain whose timer is due.\<close>

lemma startTypewriter_fire:
  "startTypewriter e ts lp =
     fire \<lparr>el = e, texts = ts, loop = lp, textIndex = 0, charIndex = 0, isTyping = True,
           timer = Some 0\<rparr>"
  by (simp add: startTypewriter_def fire_def tick_def Let_def)

lemma fires_startTypewriter:
  "fires j (startTypewriter e ts lp) =
     fires (Suc j) \<lparr>el = e, texts = ts, loop = lp, textIndex = 0, charIndex = 0,
                    isTyping = True, timer = Some 0\<rparr>"
  by (simp add: fires.simps startTypewriter_fire)

lemma initTypewriter_running:
  assumes "data_texts e = Some a" and "a \<noteq> []" and "JSON_parse a = Inr ts" and "ts \<noteq> []"
  shows "initTypewriter JSON_parse e = Running (startTypewriter e ts (data_loop e = Some ''true''))"
  using assms by (simp add: initTypewriter_def Let_def)

lemma start_state_facts:
  "isTyping \<lparr>el = e, texts = ts, loop = lp, textIndex = 0, charIndex = 0, isTyping = True, timer = Some 0\<rparr>"
  "timer \<lparr>el = e, texts = ts, loop = lp, textIndex = 0, charIndex = 0, isTyping = True, timer = Some 0\<rparr> \<noteq> None"
  "charIndex \<lparr>el = e, texts = ts, loop = lp, textIndex = 0, charIndex = 0, isTyping = True, timer = Some 0\<rparr> = 0"
  by simp_all

text \<open>
  Claim C8. A typewriter whose text list is the single string \<open>t\<close> and whose loop
  flag is off runs exactly one cycle: the first tick and the timer turns after it
  type \<open>t\<close> one character per tick after the content the element had, one tick
  ends the typing, the next \<open>length t\<close> ticks delete one character each, and the
  tick after that returns without a new timer. Until then a timer is always pending;
  from then on no timer is pending and no later turn changes anything.
\<close>

theorem typewriter_single_text_terminates:
  assumes "data_texts e = Some a" and "a \<noteq> []" and "JSON_parse a = Inr [t]"
    and "data_loop e \<noteq> Some ''true''"
  shows "initTypewriter JSON_parse e = Running (startTypewriter e [t] False)
    \<and> (\<forall>j < length t. display (fires j (startTypewriter e [t] False)) = textDisplay e @ take (Suc j) t)
    \<and> display (fires (length t) (startTypewriter e [t] False)) = textDisplay e @ t
    \<and> (\<forall>i. 1 \<le> i \<and> i \<le> length t \<longrightarrow>
          display (fires (length t + i) (startTypewriter e [t] False)) = take (length t - i) t)
    \<and> (\<forall>j < 2 * length t + 1. timer (fires j (startTypewriter e [t] False)) \<noteq> None)
    \<and> timer (fires (2 * length t + 1) (startTypewriter e [t] False)) = None
    \<and> (\<forall>m \<ge> 2 * length t + 1.
          fires m (startTypewriter e [t] False) = fires (2 * length t + 1) (startTypewriter e [t] False))"
proof -
  define p where "p = \<lparr>el = e, texts = [t], loop = False, textIndex = 0, charIndex = 0,
    isTyping = True, timer = Some 0\<rparr>"
  define tw where "tw = startTypewriter e [t] False"
  define n where "n = length t"
  have p1: "isTyping p" and p2: "timer p \<noteq> None" and p3: "textIndex p < length (texts p)"
    and p4: "charIndex p = 0"
    by (simp_all add: p_def)
  have cur: "texts p ! textIndex p = t" and elp: "el p = e"
    and lp: "\<not> loop p" and one: "length (texts p) = 1" and ti: "textIndex p = 0"
    by (simp_all add: p_def)
  have shift: "\<And>j. fires j tw = fires (Suc j) p"
    unfolding tw_def p_def by (rule fires_startTypewriter)
  have init: "initTypewriter JSON_parse e = Running tw"
    using initTypewriter_running [of e a JSON_parse "[t]"] assms by (simp add: tw_def)
  have typing: "\<And>j. j < n \<Longrightarrow> display (fires j tw) = textDisplay e @ take (Suc j) t
      \<and> timer (fires j tw) \<noteq> None"
  proof -
    fix j assume "j < n"
    then have le: "Suc j \<le> length (texts p ! textIndex p)" by (simp add: cur n_def)
    have "fires j tw = fires (Suc j) p" by (rule shift)
    also note cycle_typing [OF p1 p2 p3 p4 le]
    finally show "display (fires j tw) = textDisplay e @ take (Suc j) t \<and> timer (fires j tw) \<noteq> None"
      by (simp add: cur elp display_def textDisplay_set)
  qed
  have pause: "display (fires n tw) = textDisplay e @ t \<and> timer (fires n tw) \<noteq> None"
  proof -
    have "fires n tw = fires (length (texts p ! textIndex p) + 1) p"
      unfolding shift by (simp add: cur n_def)
    also note cycle_pause [OF p1 p2 p3 p4]
    finally show ?thesis
      by (simp add: cur elp display_def textDisplay_set)
  qed
  have deleting: "\<And>i. 1 \<le> i \<Longrightarrow> i \<le> n \<Longrightarrow>
      display (fires (n + i) tw) = take (n - i) t \<and> timer (fires (n + i) tw) \<noteq> None"
  proof -
    fix i assume i: "1 \<le> i" "i \<le> n"
    then have le: "i \<le> length (texts p ! textIndex p)" by (simp add: cur n_def)
    have "fires (n + i) tw = fires (length (texts p ! textIndex p) + 1 + i) p"
      unfolding shift by (simp add: cur n_def)
    also note cycle_deleting [OF p1 p2 p3 p4 i(1) le]
    finally show "display (fires (n + i) tw) = take (n - i) t \<and> timer (fires (n + i) tw) \<noteq> None"
      by (simp add: cur n_def display_def textDisplay_set)
  qed
  have alive: "\<And>j. j < 2 * n + 1 \<Longrightarrow> timer (fires j tw) \<noteq> None"
  proof -
    fix j assume j: "j < 2 * n + 1"
    consider "j < n" | "j = n" | "n < j" by linarith
    then show "timer (fires j tw) \<noteq> None"
    proof cases
      case 1
      with typing show ?thesis by blast
    next
      case 2
      with pause show ?thesis by blast
    next
      case 3
      with j have "1 \<le> j - n" and "j - n \<le> n" and "j = n + (j - n)" by simp_all
      with deleting [of "j - n"] show ?thesis by metis
    qed
  qed
  have stop: "timer (fires (2 * n + 1) tw) = None"
  proof -
    have "fires (2 * n + 1) tw = fires (2 * length (texts p ! textIndex p) + 2) p"
      unfolding shift by (simp add: cur n_def)
    also note cycle_end [OF p1 p2 p3 p4]
    finally show ?thesis
      by (simp add: lp one ti)
  qed
  have rest: "\<And>m. 2 * n + 1 \<le> m \<Longrightarrow> fires m tw = fires (2 * n + 1) tw"
  proof -
    fix m assume "2 * n + 1 \<le> m"
    then have "m = (2 * n + 1) + (m - (2 * n + 1))" by simp
    then have "fires m tw = fires (m - (2 * n + 1)) (fires (2 * n + 1) tw)"
      using fires_add [of "2 * n + 1" "m - (2 * n + 1)" tw] by simp
    also have "\<dots> = fires (2 * n + 1) tw" using stop by (rule fires_stopped)
    finally show "fires m tw = fires (2 * n + 1) tw" .
  qed
  from init typing pause deleting alive stop rest
  show ?thesis unfolding tw_def n_def by blast
qed


theorem typewriter_single_text_terminates_witness:
  \<open>data_texts \<lparr>data_texts = Some ''["Hi"]'', data_loop = Some ''false'', span = None, own_text = []\<rparr>
      = Some ''["Hi"]''
   \<and> ''["Hi"]'' \<noteq> []
   \<and> (\<lambda>a. if a = ''["Hi"]'' then Inr [''Hi''] else Inl SyntaxError) ''["Hi"]'' = Inr [''Hi'']
   \<and> data_loop \<lparr>data_texts = Some ''["Hi"]'', data_loop = Some ''false'', span = None, own_text = []\<rparr>
      \<noteq> Some ''true''
   \<and> initTypewriter (\<lambda>a. if a = ''["Hi"]'' then Inr [''Hi''] else Inl SyntaxError)
        \<lparr>data_texts = Some ''["Hi"]'', data_loop = Some ''false'', span = None, own_text = []\<rparr>
      = Running (startTypewriter
          \<lparr>data_texts = Some ''["Hi"]'', data_loop = Some ''false'', span = None, own_text = []\<rparr>
          [''Hi''] False)
   \<and> display (fires 1 (startTypewriter
          \<lparr>data_texts = Some ''["Hi"]'', data_loop = Some ''false'', span = None, own_text = []\<rparr>
          [''Hi''] False)) = ''Hi''
   \<and> display (fires 4 (startTypewriter
          \<lparr>data_texts = Some ''["Hi"]'', data_loop = Some ''false'', span = None, own_text = []\<rparr>
          [''Hi''] False)) = []
   \<and> timer (fires 5 (startTypewriter
          \<lparr>data_texts = Some ''["Hi"]'', data_loop = Some ''false'', span = None, own_text = []\<rparr>
          [''Hi''] False)) = None\<close>
proof -
  let ?e = "\<lparr>data_texts = Some ''[\"Hi\"]'', data_loop = Some ''false'', span = None, own_text = []\<rparr>"
  let ?parse = "\<lambda>a. if a = ''[\"Hi\"]'' then Inr [''Hi''] else Inl SyntaxError"
  have h1: "data_texts ?e = Some ''[\"Hi\"]''" by simp
  have h2: "''[\"Hi\"]'' \<noteq> []" by simp
  have h3: "?parse ''[\"Hi\"]'' = Inr [''Hi'']" by simp
  have h4: "data_loop ?e \<noteq> Some ''true''" by simp
  note r = typewriter_single_text_terminates [of ?e "''[\"Hi\"]''" ?parse "''Hi''", OF h1 h2 h3 h4]
  from r have a: "initTypewriter ?parse ?e = Running (startTypewriter ?e [''Hi''] False)"
    by (rule conjunct1)
  from r have "\<forall>j < length ''Hi''. display (fires j (startTypewriter ?e [''Hi''] False))
      = textDisplay ?e @ take (Suc j) ''Hi''"
    by blast
  then have b: "display (fires 1 (startTypewriter ?e [''Hi''] False)) = ''Hi''"
    by (simp add: textDisplay_def)
  from r have "\<forall>i. 1 \<le> i \<and> i \<le> length ''Hi'' \<longrightarrow>
      display (fires (length ''Hi'' + i) (startTypewriter ?e [''Hi''] False))
        = take (length ''Hi'' - i) ''Hi''"
    by blast
  then have "display (fires (length ''Hi'' + 2) (startTypewriter ?e [''Hi''] False))
        = take (length ''Hi'' - 2) ''Hi''"
    by simp
  then have c: "display (fires 4 (startTypewriter ?e [''Hi''] False)) = []"
    by (simp add: eval_nat_numeral)
  from r have "timer (fires (2 * length ''Hi'' + 1) (startTypewriter ?e [''Hi''] False)) = None"
    by blast
  then have d: "timer (fires 5 (startTypewriter ?e [''Hi''] False)) = None"
    by (simp add: eval_nat_numeral)
  from h1 h2 h3 h4 a b c d show ?thesis by blast
qed

text \<open>
  Claim C2 says that malformed text in \<open>data-texts\<close> gives an empty list and an
  inert element, with no error. On the text \<open>[Hello, World\<close>, which
  \<open>JSON.parse\<close> rejects, \<open>initTypewriter\<close> throws the parser's
  \<open>SyntaxError\<close>. (The parser given here agrees with \<open>JSON.parse\<close> on the two
  texts it is asked about.)
\<close>

theorem initTypewriter_malformed_throws_counterexample:
  "initTypewriter (\<lambda>a. if a = ''[]'' then Inr [] else Inl SyntaxError)
     \<lparr>data_texts = Some ''[Hello, World'', data_loop = None, span = None, own_text = ''Welcome''\<rparr>
   = Threw SyntaxError"
  by (simp add: initTypewriter_def)

text \<open>
  Claim C2, amended. An attribute that is absent or empty, or whose text parses to the
  empty array, gives an empty list: \<open>initTypewriter\<close> returns at its guard and the
  element is left as it is, with no error. When the parser rejects the text as
  malformed, the element is not touched either, but the parser's exception leaves
  \<open>initTypewriter\<close>.
\<close>

theorem initTypewriter_empty_or_throws:
  "(JSON_parse ''[]'' = Inr [] \<and> (data_texts e = None \<or> data_texts e = Some [])
      \<longrightarrow> initTypewriter JSON_parse e = Inert e)
   \<and> (data_texts e = Some a \<and> a \<noteq> [] \<and> JSON_parse a = Inr []
      \<longrightarrow> initTypewriter JSON_parse e = Inert e)
   \<and> (data_texts e = Some a \<and> a \<noteq> [] \<and> JSON_parse a = Inl err
      \<longrightarrow> initTypewriter JSON_parse e = Threw err)"
  by (auto simp: initTypewriter_def)

theorem initTypewriter_empty_or_throws_witness:
  "initTypewriter (\<lambda>a. if a = ''[]'' then Inr [] else Inl SyntaxError)
     \<lparr>data_texts = None, data_loop = None, span = None, own_text = ''Welcome''\<rparr>
   = Inert \<lparr>data_texts = None, data_loop = None, span = None, own_text = ''Welcome''\<rparr>
   \<and> initTypewriter (\<lambda>a. if a = ''[]'' then Inr [] else Inl SyntaxError)
     \<lparr>data_texts = Some ''[]'', data_loop = None, span = None, own_text = ''Welcome''\<rparr>
   = Inert \<lparr>data_texts = Some ''[]'', data_loop = None, span = None, own_text = ''Welcome''\<rparr>
   \<and> initTypewriter (\<lambda>a. if a = ''[]'' then Inr [] else Inl SyntaxError)
     \<lparr>data_texts = Some ''[Hello'', data_loop = None, span = None, own_text = ''Welcome''\<rparr>
   = Threw SyntaxError"
proof -
  let ?parse = "\<lambda>a. if a = ''[]'' then Inr [] else Inl SyntaxError :: js_error + string list"
  let ?e1 = "\<lparr>data_texts = None, data_loop = None, span = None, own_text = ''Welcome''\<rparr>"
  let ?e2 = "\<lparr>data_texts = Some ''[]'', data_loop = None, span = None, own_text = ''Welcome''\<rparr>"
  let ?e3 = "\<lparr>data_texts = Some ''[Hello'', data_loop = None, span = None, own_text = ''Welcome''\<rparr>"
  have p: "?parse ''[]'' = Inr []" by simp
  have a1: "data_texts ?e1 = None \<or> data_texts ?e1 = Some []" by simp
  have a2: "data_texts ?e2 = Some ''[]'' \<and> ''[]'' \<noteq> [] \<and> ?parse ''[]'' = Inr []" by simp
  have a3: "data_texts ?e3 = Some ''[Hello'' \<and> ''[Hello'' \<noteq> [] \<and> ?parse ''[Hello'' = Inl SyntaxError"
    by simp
  from initTypewriter_empty_or_throws [of ?parse ?e1] p a1
  have r1: "initTypewriter ?parse ?e1 = Inert ?e1" by blast
  from initTypewriter_empty_or_throws [of ?parse ?e2 "''[]''"] a2
  have r2: "initTypewriter ?parse ?e2 = Inert ?e2" by blast
  from initTypewriter_empty_or_throws [of ?parse ?e3 "''[Hello''" SyntaxError] a3
  have r3: "initTypewriter ?parse ?e3 = Threw SyntaxError" by blast
  from r1 r2 r3 show ?thesis by blast
qed

text \<open>
  Claim C10 says that for every element with non-empty initial content the first
  Deleting tick overwrites the whole content with a prefix of the current string. With
  the text list \<open>[""]\<close> and the initial content \<open>X\<close>, the first tick ends the
  (empty) typing phase, and the first Deleting tick writes nothing: the content is
  still \<open>X\<close>, which is no prefix of the empty string, and the chain has stopped.
\<close>

theorem typewriter_empty_first_text_counterexample:
  "textDisplay \<lparr>data_texts = Some ''[\"\"]'', data_loop = None, span = None, own_text = ''X''\<rparr> = ''X''
   \<and> initTypewriter (\<lambda>a. Inr [[]])
        \<lparr>data_texts = Some ''[\"\"]'', data_loop = None, span = None, own_text = ''X''\<rparr>
      = Running (startTypewriter
          \<lparr>data_texts = Some ''[\"\"]'', data_loop = None, span = None, own_text = ''X''\<rparr>
          [[]] False)
   \<and> \<not> isTyping (startTypewriter
          \<lparr>data_texts = Some ''[\"\"]'', data_loop = None, span = None, own_text = ''X''\<rparr>
          [[]] False)
   \<and> display (fire (startTypewriter
          \<lparr>data_texts = Some ''[\"\"]'', data_loop = None, span = None, own_text = ''X''\<rparr>
          [[]] False)) = ''X''
   \<and> timer (fire (startTypewriter
          \<lparr>data_texts = Some ''[\"\"]'', data_loop = None, span = None, own_text = ''X''\<rparr>
          [[]] False)) = None"
  by (simp add: initTypewriter_def startTypewriter_def tick_def fire_def display_def
      textDisplay_def PAUSE_AFTER_TYPE_def)

text \<open>
  Claim C10, amended. For every typewriter whose first string is not empty, whatever
  the initial content of the display target: each tick of the first Typing phase
  appends one character of the first string to the initial content; the first
  Deleting tick replaces the whole content by the first string without its last
  character; and from that tick on the typewriter is in the same state as one started
  on any other initial content, so the initial content is gone for good.
\<close>

theorem typewriter_initial_content_discarded:
  assumes "ts \<noteq> []" and "hd ts \<noteq> []"
  shows "(\<forall>j < length (hd ts).
            isTyping (fires j (startTypewriter e ts lp))
            \<and> display (fires j (startTypewriter e ts lp)) = textDisplay e @ take (Suc j) (hd ts))
    \<and> \<not> isTyping (fires (length (hd ts)) (startTypewriter e ts lp))
    \<and> display (fires (length (hd ts)) (startTypewriter e ts lp)) = textDisplay e @ hd ts
    \<and> display (fires (length (hd ts) + 1) (startTypewriter e ts lp))
        = take (length (hd ts) - 1) (hd ts)
    \<and> (\<forall>c. \<forall>m \<ge> length (hd ts) + 1.
          fires m (startTypewriter (set_textDisplay c e) ts lp) = fires m (startTypewriter e ts lp))"
proof -
  define t where "t = hd ts"
  define n where "n = length t"
  define P where "P = (\<lambda>x. \<lparr>el = x, texts = ts, loop = lp, textIndex = 0, charIndex = 0,
    isTyping = True, timer = Some (0::nat)\<rparr>)"
  define tw where "tw = startTypewriter e ts lp"
  have p1: "\<And>x. isTyping (P x)" and p2: "\<And>x. timer (P x) \<noteq> None"
    and p3: "\<And>x. textIndex (P x) < length (texts (P x))" and p4: "\<And>x. charIndex (P x) = 0"
    using assms(1) by (simp_all add: P_def)
  have cur: "\<And>x. texts (P x) ! textIndex (P x) = t" and elp: "\<And>x. el (P x) = x"
    using assms(1) by (simp_all add: P_def t_def hd_conv_nth)
  have n1: "1 \<le> n" using assms(2) by (simp add: n_def t_def Suc_le_eq)
  have shift: "\<And>x j. fires j (startTypewriter x ts lp) = fires (Suc j) (P x)"
    unfolding P_def by (rule fires_startTypewriter)
  have typing: "\<And>j. j < n \<Longrightarrow>
      isTyping (fires j tw) \<and> display (fires j tw) = textDisplay e @ take (Suc j) t"
  proof -
    fix j assume "j < n"
    then have le: "Suc j \<le> length (texts (P e) ! textIndex (P e))" by (simp add: cur n_def)
    have "fires j tw = fires (Suc j) (P e)" unfolding tw_def by (rule shift)
    also note cycle_typing [OF p1 p2 p3 p4 le]
    finally show "isTyping (fires j tw) \<and> display (fires j tw) = textDisplay e @ take (Suc j) t"
      by (simp add: cur elp p1 display_def textDisplay_set)
  qed
  have pause: "\<not> isTyping (fires n tw) \<and> display (fires n tw) = textDisplay e @ t"
  proof -
    have "fires n tw = fires (length (texts (P e) ! textIndex (P e)) + 1) (P e)"
      unfolding tw_def shift by (simp add: cur n_def)
    also note cycle_pause [OF p1 p2 p3 p4]
    finally show ?thesis
      by (simp add: cur elp display_def textDisplay_set)
  qed
  have del: "\<And>x. fires (n + 1) (startTypewriter x ts lp) =
      (P x)\<lparr>el := set_textDisplay (take (n - 1) t) x, charIndex := n - 1, isTyping := False,
            timer := Some DELETING_SPEED\<rparr>"
  proof -
    fix x
    have le: "1 \<le> length (texts (P x) ! textIndex (P x))" using n1 by (simp add: cur n_def)
    have "fires (n + 1) (startTypewriter x ts lp)
        = fires (length (texts (P x) ! textIndex (P x)) + 1 + 1) (P x)"
      unfolding shift by (simp add: cur n_def)
    also note cycle_deleting [OF p1 p2 p3 p4 le_refl le]
    finally show "fires (n + 1) (startTypewriter x ts lp) =
      (P x)\<lparr>el := set_textDisplay (take (n - 1) t) x, charIndex := n - 1, isTyping := False,
            timer := Some DELETING_SPEED\<rparr>"
      by (simp add: cur elp n_def)
  qed
  have first_delete: "display (fires (n + 1) tw) = take (n - 1) t"
    unfolding tw_def del by (simp add: display_def textDisplay_set)
  have same: "\<And>c. fires (n + 1) (startTypewriter (set_textDisplay c e) ts lp) = fires (n + 1) tw"
    unfolding tw_def del by (simp add: P_def set_textDisplay_twice)
  have forever: "\<And>c m. n + 1 \<le> m \<Longrightarrow>
      fires m (startTypewriter (set_textDisplay c e) ts lp) = fires m tw"
  proof -
    fix c m assume "n + 1 \<le> m"
    then have m: "m = (n + 1) + (m - (n + 1))" by simp
    have "fires m (startTypewriter (set_textDisplay c e) ts lp)
        = fires (m - (n + 1)) (fires (n + 1) (startTypewriter (set_textDisplay c e) ts lp))"
      by (subst m) (rule fires_add)
    also have "\<dots> = fires (m - (n + 1)) (fires (n + 1) tw)" by (simp only: same)
    also have "\<dots> = fires m tw" by (subst (2) m) (rule fires_add [symmetric])
    finally show "fires m (startTypewriter (set_textDisplay c e) ts lp) = fires m tw" .
  qed
  from typing pause first_delete forever
  show ?thesis unfolding tw_def n_def t_def by blast
qed

theorem typewriter_initial_content_discarded_witness:
  "[''ab''] \<noteq> [] \<and> hd [''ab''] \<noteq> []
   \<and> display (fires 1 (startTypewriter
        \<lparr>data_texts = None, data_loop = None, span = None, own_text = ''X''\<rparr> [''ab''] True))
      = ''Xab''
   \<and> display (fires 3 (startTypewriter
        \<lparr>data_texts = None, data_loop = None, span = None, own_text = ''X''\<rparr> [''ab''] True))
      = ''a''"
proof -
  let ?e = "\<lparr>data_texts = None, data_loop = None, span = None, own_text = ''X''\<rparr>"
  have h1: "[''ab''] \<noteq> []" by simp
  have h2: "hd [''ab''] \<noteq> []" by simp
  note r = typewriter_initial_content_discarded [of "[''ab'']" ?e True, OF h1 h2]
  from r have "\<forall>j < length (hd [''ab'']). display (fires j (startTypewriter ?e [''ab''] True))
      = textDisplay ?e @ take (Suc j) (hd [''ab''])"
    by blast
  then have a: "display (fires 1 (startTypewriter ?e [''ab''] True)) = ''Xab''"
    by (simp add: textDisplay_def)
  from r have "display (fires (length (hd [''ab'']) + 1) (startTypewriter ?e [''ab''] True))
        = take (length (hd [''ab'']) - 1) (hd [''ab''])"
    by blast
  then have b: "display (fires 3 (startTypewriter ?e [''ab''] True)) = ''a''"
    by (simp add: eval_nat_numeral)
  from h1 h2 a b show ?thesis by blast
qed

section \<open>Properties of the music player\<close>

lemma tears_down_refl: "tears_down s s"
  by (simp add: tears_down_def)

lemma tears_down_trans:
  assumes "tears_down s s1" and "tears_down s1 s2"
  shows "tears_down s s2"
proof -
  from assms have len: "length (audios s) \<le> length (audios s1)" "length (audios s1) \<le> length (audios s2)"
    by (simp_all add: tears_down_def)
  have keep: "\<forall>h \<in> {0..<length (audios s)}. released (audios s ! h) \<longrightarrow> released (audios s2 ! h)"
    using assms len by (auto simp: tears_down_def)
  have new: "length (audios s) < length (audios s2) \<longrightarrow>
      (\<forall>h \<in> {0..<length (audios s)}. released (audios s2 ! h))"
  proof (intro impI ballI)
    fix h assume grow: "length (audios s) < length (audios s2)" and h: "h \<in> {0..<length (audios s)}"
    show "released (audios s2 ! h)"
    proof (cases "length (audios s) < length (audios s1)")
      case True
      with assms(1) h have "released (audios s1 ! h)" by (auto simp: tears_down_def)
      with assms(2) h len show ?thesis by (auto simp: tears_down_def)
    next
      case False
      with len grow have "length (audios s1) < length (audios s2)" by simp
      with assms(2) h len show ?thesis by (auto simp: tears_down_def)
    qed
  qed
  from len keep new show ?thesis by (simp add: tears_down_def)
qed

lemma tears_down_same_tracks:
  "audios s' = audios s \<Longrightarrow> tears_down s s'"
  by (simp add: tears_down_def)

lemma one_live_track_same_tracks:
  "audios s' = audios s \<Longrightarrow> currentAudio s' = currentAudio s \<Longrightarrow>
     one_live_track s' = one_live_track s"
  by (simp add: one_live_track_def split: option.splits)

lemma stop_fields:
  "currentAudio (stopAndHidePlayer s) = None"
  "activeCard (stopAndHidePlayer s) = None"
  "isPlaying (stopAndHidePlayer s) = False"
  "playPauseBtn (stopAndHidePlayer s) = PLAY_GLYPH"
  "musicPlayer (stopAndHidePlayer s) = insert ''hidden'' (musicPlayer s)"
  "cards (stopAndHidePlayer s) = cards s"
  "timeouts (stopAndHidePlayer s) = timeouts s"
  "songTitle (stopAndHidePlayer s) = songTitle s"
  "progressBar (stopAndHidePlayer s) = progressBar s"
  "timeDisplay (stopAndHidePlayer s) = timeDisplay s"
  "autoplayAllowed (stopAndHidePlayer s) = autoplayAllowed s"
  "length (audios (stopAndHidePlayer s)) = length (audios s)"
  by (simp_all add: stopAndHidePlayer_def Let_def split: option.splits)

lemma stop_audios:
  "audios (stopAndHidePlayer s) =
     (case currentAudio s of
        None \<Rightarrow> audios s
      | Some h \<Rightarrow> (audios s)[h := (audios s ! h)\<lparr>paused := True, currentTime := 0\<rparr>])"
  by (simp add: stopAndHidePlayer_def Let_def split: option.splits)

lemma stop_idem: "stopAndHidePlayer (stopAndHidePlayer s) = stopAndHidePlayer s"
  by (simp add: stopAndHidePlayer_def Let_def split: option.splits)

lemma stop_released:
  assumes "one_live_track s" and "h < length (audios s)"
  shows "released (audios (stopAndHidePlayer s) ! h)"
proof (cases "currentAudio s")
  case None
  with assms show ?thesis by (simp add: stop_audios one_live_track_def)
next
  case (Some k)
  show ?thesis
  proof (cases "h = k")
    case True
    with Some assms show ?thesis by (simp add: stop_audios released_def)
  next
    case False
    with Some assms show ?thesis by (simp add: stop_audios one_live_track_def)
  qed
qed

lemma stop_keeps_released:
  assumes "h < length (audios s)" and "released (audios s ! h)"
  shows "released (audios (stopAndHidePlayer s) ! h)"
proof (cases "currentAudio s")
  case None
  with assms show ?thesis by (simp add: stop_audios)
next
  case (Some k)
  show ?thesis
  proof (cases "h = k")
    case True
    with Some assms show ?thesis by (simp add: stop_audios released_def)
  next
    case False
    with Some assms show ?thesis by (simp add: stop_audios)
  qed
qed

lemma stop_tracks:
  "one_live_track (stopAndHidePlayer s)" if "one_live_track s"
  using that stop_released [OF that]
  by (simp add: one_live_track_def stop_fields)

lemma stop_tears_down: "tears_down s (stopAndHidePlayer s)"
  by (simp add: tears_down_def stop_fields stop_keeps_released)

lemma updateProgress_keeps:
  "audios (snd (updateProgress s)) = audios s"
  "currentAudio (snd (updateProgress s)) = currentAudio s"
  "cards (snd (updateProgress s)) = cards s"
  "activeCard (snd (updateProgress s)) = activeCard s"
  "isPlaying (snd (updateProgress s)) = isPlaying s"
  "musicPlayer (snd (updateProgress s)) = musicPlayer s"
  "songTitle (snd (updateProgress s)) = songTitle s"
  "playPauseBtn (snd (updateProgress s)) = playPauseBtn s"
  "timeouts (snd (updateProgress s)) = timeouts s"
  "autoplayAllowed (snd (updateProgress s)) = autoplayAllowed s"
  by (simp_all add: updateProgress_def Let_def split: option.splits)

lemma updateProgress_present:
  "progressBar s \<noteq> None \<Longrightarrow> timeDisplay s \<noteq> None \<Longrightarrow> fst (updateProgress s) = None"
  by (auto simp: updateProgress_def Let_def split: option.splits)

lemma update_last: "length xs = n \<Longrightarrow> (xs @ [a])[n := b] = xs @ [b]"
  by auto

lemma nth_last: "length xs = n \<Longrightarrow> (xs @ [a]) ! n = a"
  by auto

lemma play_audios:
  "audios (snd (playCardMusic c m s)) =
     audios (stopAndHidePlayer s) @
       [\<lparr>src = m, volume = 1 / 2, paused = \<not> autoplayAllowed s, currentTime = 0, duration = NaN\<rparr>]"
  by (simp add: playCardMusic_def Let_def stop_fields updateProgress_keeps update_last nth_last
      split: option.splits)

lemma play_fields:
  "currentAudio (snd (playCardMusic c m s)) = Some (length (audios s))"
  "activeCard (snd (playCardMusic c m s)) = Some c"
  "isPlaying (snd (playCardMusic c m s)) = True"
  "musicPlayer (snd (playCardMusic c m s)) = musicPlayer s - {''hidden''}"
  "cards (snd (playCardMusic c m s)) = cards s"
  "timeouts (snd (playCardMusic c m s)) = timeouts s"
  "autoplayAllowed (snd (playCardMusic c m s)) = autoplayAllowed s"
  by (simp_all add: playCardMusic_def Let_def stop_fields updateProgress_keeps split: option.splits)

lemma play_present:
  assumes "songTitle s \<noteq> None" and "progressBar s \<noteq> None" and "timeDisplay s \<noteq> None"
  shows "fst (playCardMusic c m s) = None"
    and "songTitle (snd (playCardMusic c m s)) = Some (last_segment m)"
    and "playPauseBtn (snd (playCardMusic c m s)) = PAUSE_GLYPH"
  using assms
  by (auto simp: playCardMusic_def Let_def stop_fields updateProgress_keeps
      updateProgress_present split: option.splits)

lemma play_absent_title:
  "songTitle s = None \<Longrightarrow> fst (playCardMusic c m s) = Some TypeError"
  by (simp add: playCardMusic_def Let_def stop_fields)

lemma play_tracks:
  assumes "one_live_track s"
  shows "one_live_track (snd (playCardMusic c m s))"
    and "tears_down s (snd (playCardMusic c m s))"
proof -
  let ?s' = "snd (playCardMusic c m s)"
  have old: "\<And>h. h < length (audios s) \<Longrightarrow> released (audios ?s' ! h)"
    using stop_released [OF assms] by (simp add: play_audios nth_append stop_fields)
  show "one_live_track ?s'"
    using old by (auto simp: one_live_track_def play_fields play_audios stop_fields less_Suc_eq)
  show "tears_down s ?s'"
    using old by (simp add: tears_down_def play_audios stop_fields)
qed

lemma closeCard_fields:
  "audios (closeCard c s) = audios (stopAndHidePlayer s)"
  "currentAudio (closeCard c s) = None"
  "activeCard (closeCard c s) = None"
  "isPlaying (closeCard c s) = False"
  "playPauseBtn (closeCard c s) = PLAY_GLYPH"
  "musicPlayer (closeCard c s) = insert ''hidden'' (musicPlayer s)"
  "songTitle (closeCard c s) = songTitle s"
  "progressBar (closeCard c s) = progressBar s"
  "timeDisplay (closeCard c s) = timeDisplay s"
  "autoplayAllowed (closeCard c s) = autoplayAllowed s"
  "cards (closeCard c s) =
     (cards s)(c := (cards s c)\<lparr>classList :=
        insert ''closing'' (classList (cards s c) - {''show-text''} - {''animate''})\<rparr>)"
  "timeouts (closeCard c s) = timeouts s @ [(1000, RemoveClosing c)]"
  by (simp_all add: closeCard_def Let_def stop_fields)

lemma closeCard_tracks:
  "one_live_track s \<Longrightarrow> one_live_track (closeCard c s)"
  "tears_down s (closeCard c s)"
proof -
  have a: "audios (closeCard c s) = audios (stopAndHidePlayer s)"
    and b: "currentAudio (closeCard c s) = currentAudio (stopAndHidePlayer s)"
    by (simp_all add: closeCard_fields stop_fields)
  show "one_live_track s \<Longrightarrow> one_live_track (closeCard c s)"
    using one_live_track_same_tracks [OF a b] by (simp add: stop_tracks)
  have "tears_down (stopAndHidePlayer s) (closeCard c s)"
    using a by (rule tears_down_same_tracks)
  with stop_tears_down show "tears_down s (closeCard c s)"
    by (rule tears_down_trans)
qed

lemma playAndOpen_tracks:
  assumes "one_live_track s"
  shows "one_live_track (snd (playAndOpen c s))"
    and "tears_down s (snd (playAndOpen c s))"
proof -
  let ?r = "(case data_music (cards s c) of
              None \<Rightarrow> (None, s)
            | Some m \<Rightarrow> if m = [] then (None, s) else playCardMusic c m s)"
  have r: "one_live_track (snd ?r) \<and> tears_down s (snd ?r)"
    using assms play_tracks [OF assms] by (simp add: tears_down_refl split: option.splits)
  have a: "audios (snd (playAndOpen c s)) = audios (snd ?r)"
    and b: "currentAudio (snd (playAndOpen c s)) = currentAudio (snd ?r)"
    by (simp_all add: playAndOpen_def split: prod.splits option.splits)
  from r show "one_live_track (snd (playAndOpen c s))"
    using one_live_track_same_tracks [OF a b] by simp
  have "tears_down (snd ?r) (snd (playAndOpen c s))"
    using a by (rule tears_down_same_tracks)
  with r show "tears_down s (snd (playAndOpen c s))"
    by (blast intro: tears_down_trans)
qed

text \<open>A call that does not close another card first.\<close>

lemma handleCardClick_direct:
  assumes "activeCard s = None \<or> activeCard s = Some c"
  shows "handleCardClick c s =
    (if ''animate'' \<notin> classList (cards s c) then playAndOpen c s else (None, closeCard c s))"
  using assms by (subst handleCardClick.simps) auto

lemma handleCardClick_other:
  assumes "activeCard s = Some a" and "a \<noteq> c"
  shows "handleCardClick c s =
    (if ''animate'' \<notin> classList (cards s c) then
       (case handleCardClick a s of
          (Some err, s1) \<Rightarrow> (Some err, s1)
        | (None, s1) \<Rightarrow> playAndOpen c s1)
     else (None, closeCard c s))"
  using assms by (subst handleCardClick.simps) simp

lemma handleCardClick_direct_tracks:
  assumes "one_live_track s" and "activeCard s = None \<or> activeCard s = Some c"
  shows "one_live_track (snd (handleCardClick c s)) \<and> tears_down s (snd (handleCardClick c s))"
  using assms(1) playAndOpen_tracks [OF assms(1)] closeCard_tracks
  by (simp add: handleCardClick_direct [OF assms(2)])

lemma handleCardClick_tracks:
  assumes "one_live_track s"
  shows "one_live_track (snd (handleCardClick c s)) \<and> tears_down s (snd (handleCardClick c s))"
proof (cases "activeCard s = None \<or> activeCard s = Some c")
  case True
  with assms show ?thesis by (rule handleCardClick_direct_tracks)
next
  case False
  then obtain a where a: "activeCard s = Some a" "a \<noteq> c" by auto
  let ?i = "handleCardClick a s"
  have inner: "one_live_track (snd ?i) \<and> tears_down s (snd ?i)"
    using assms a(1) by (intro handleCardClick_direct_tracks) simp_all
  show ?thesis
  proof (cases "''animate'' \<notin> classList (cards s c)")
    case False
    with assms closeCard_tracks show ?thesis
      by (simp add: handleCardClick_other [OF a])
  next
    case True
    obtain r s1 where i: "handleCardClick a s = (r, s1)" by (cases "handleCardClick a s")
    with inner have s1: "one_live_track s1" "tears_down s s1" by simp_all
    show ?thesis
    proof (cases r)
      case (Some err)
      with i True have "handleCardClick c s = (Some err, s1)"
        by (simp add: handleCardClick_other [OF a])
      with s1 show ?thesis by simp
    next
      case None
      with i True have eq: "handleCardClick c s = playAndOpen c s1"
        by (simp add: handleCardClick_other [OF a])
      from s1 playAndOpen_tracks [of s1 c]
      have "one_live_track (snd (playAndOpen c s1))"
        and "tears_down s1 (snd (playAndOpen c s1))" by simp_all
      with s1 show ?thesis
        unfolding eq by (blast intro: tears_down_trans)
    qed
  qed
qed

lemma clicks_tracks: "one_live_track s \<Longrightarrow> one_live_track (clicks cs s)"
proof (induction cs arbitrary: s)
  case Nil
  then show ?case by simp
next
  case (Cons c cs)
  from Cons.prems have "one_live_track (snd (handleCardClick c s))"
    using handleCardClick_tracks by blast
  then have "one_live_track (clicks cs (snd (handleCardClick c s)))" by (rule Cons.IH)
  then show ?case by simp
qed

lemma filter_at_most_one:
  "distinct xs \<Longrightarrow> (\<forall>x \<in> set xs. P x \<longrightarrow> x = a) \<Longrightarrow> length (filter P xs) \<le> 1"
proof (induction xs)
  case Nil
  show ?case by simp
next
  case (Cons x xs)
  show ?case
  proof (cases "P x")
    case False
    with Cons show ?thesis by simp
  next
    case True
    with Cons.prems have "x = a" by simp
    have "\<forall>y \<in> set xs. \<not> P y"
    proof
      fix y assume y: "y \<in> set xs"
      show "\<not> P y"
      proof
        assume "P y"
        with Cons.prems(2) y have "y = a" by simp
        with \<open>x = a\<close> y have "x \<in> set xs" by simp
        with Cons.prems(1) show False by simp
      qed
    qed
    then have "filter P xs = []" by (simp add: filter_empty_conv)
    with True show ?thesis by simp
  qed
qed

lemma one_live_track_live:
  assumes "one_live_track s"
  shows "length (live_tracks s) \<le> 1"
proof (cases "currentAudio s")
  case None
  with assms have "filter (\<lambda>h. \<not> paused (audios s ! h)) [0..<length (audios s)] = []"
    by (auto simp: one_live_track_def released_def filter_empty_conv)
  then show ?thesis by (simp add: live_tracks_def)
next
  case (Some k)
  with assms have "\<forall>h \<in> set [0..<length (audios s)]. \<not> paused (audios s ! h) \<longrightarrow> h = k"
    by (auto simp: one_live_track_def released_def)
  with distinct_upt show ?thesis
    unfolding live_tracks_def by (rule filter_at_most_one)
qed

lemma loaded_fields:
  assumes "musicPlayerController pg = (r, Some s0)"
  shows "audios s0 = []" and "currentAudio s0 = None"
proof -
  from assms obtain mp pp where "music_player_el pg = Some mp" and "play_pause_el pg = Some pp"
    by (cases "music_player_el pg"; cases "play_pause_el pg")
      (simp_all add: musicPlayerController_def)
  with assms show "audios s0 = []" and "currentAudio s0 = None"
    by (cases "progress_bar_el pg"; simp add: musicPlayerController_def Let_def; fastforce)+
qed

lemma loaded_tracks:
  "musicPlayerController pg = (r, Some s0) \<Longrightarrow> one_live_track s0"
  by (simp add: one_live_track_def loaded_fields)

lemma playAndOpen_music:
  assumes "data_music (cards s c) = Some m" and "m \<noteq> []"
  shows "audios (snd (playAndOpen c s)) = audios (snd (playCardMusic c m s))"
    and "currentAudio (snd (playAndOpen c s)) = Some (length (audios s))"
    and "activeCard (snd (playAndOpen c s)) = Some c"
    and "isPlaying (snd (playAndOpen c s))"
    and "musicPlayer (snd (playAndOpen c s)) = musicPlayer s - {''hidden''}"
    and "fst (playAndOpen c s) = fst (playCardMusic c m s)"
proof -
  obtain r s1 where p: "playCardMusic c m s = (r, s1)" by (cases "playCardMusic c m s")
  have s1: "s1 = snd (playCardMusic c m s)" by (simp add: p)
  have eq: "playAndOpen c s =
      (case r of
         Some err \<Rightarrow> (Some err, s1)
       | None \<Rightarrow>
           (None, s1\<lparr>cards := (cards s1)
                  (c := (cards s1 c)\<lparr>classList := insert ''animate'' (classList (cards s1 c))\<rparr>),
              timeouts := timeouts s1 @ [(1200, AddShowText c)]\<rparr>))"
    using assms by (simp add: playAndOpen_def p)
  show "audios (snd (playAndOpen c s)) = audios (snd (playCardMusic c m s))"
    by (cases r) (simp_all add: eq p)
  show "currentAudio (snd (playAndOpen c s)) = Some (length (audios s))"
    by (cases r) (simp_all add: eq s1 play_fields)
  show "activeCard (snd (playAndOpen c s)) = Some c"
    by (cases r) (simp_all add: eq s1 play_fields)
  show "isPlaying (snd (playAndOpen c s))"
    by (cases r) (simp_all add: eq s1 play_fields)
  show "musicPlayer (snd (playAndOpen c s)) = musicPlayer s - {''hidden''}"
    by (cases r) (simp_all add: eq s1 play_fields)
  show "fst (playAndOpen c s) = fst (playCardMusic c m s)"
    by (cases r) (simp_all add: eq p)
qed

lemma playAndOpen_present:
  assumes "data_music (cards s c) = Some m" and "m \<noteq> []"
    and "songTitle s \<noteq> None" and "progressBar s \<noteq> None" and "timeDisplay s \<noteq> None"
  shows "fst (playAndOpen c s) = None"
    and "cards (snd (playAndOpen c s)) =
      (cards s)(c := (cards s c)\<lparr>classList := insert ''animate'' (classList (cards s c))\<rparr>)"
    and "timeouts (snd (playAndOpen c s)) = timeouts s @ [(1200, AddShowText c)]"
    and "songTitle (snd (playAndOpen c s)) = Some (last_segment m)"
    and "playPauseBtn (snd (playAndOpen c s)) = PAUSE_GLYPH"
proof -
  obtain s1 where p: "playCardMusic c m s = (None, s1)"
    using play_present(1) [OF assms(3-5), of c m] by (cases "playCardMusic c m s") simp
  have s1: "s1 = snd (playCardMusic c m s)" by (simp add: p)
  have eq: "playAndOpen c s =
      (None, s1\<lparr>cards := (cards s1)
                  (c := (cards s1 c)\<lparr>classList := insert ''animate'' (classList (cards s1 c))\<rparr>),
              timeouts := timeouts s1 @ [(1200, AddShowText c)]\<rparr>)"
    using assms(1,2) by (simp add: playAndOpen_def p)
  show "fst (playAndOpen c s) = None" by (simp add: eq)
  show "cards (snd (playAndOpen c s)) =
      (cards s)(c := (cards s c)\<lparr>classList := insert ''animate'' (classList (cards s c))\<rparr>)"
    by (simp add: eq s1 play_fields)
  show "timeouts (snd (playAndOpen c s)) = timeouts s @ [(1200, AddShowText c)]"
    by (simp add: eq s1 play_fields)
  show "songTitle (snd (playAndOpen c s)) = Some (last_segment m)"
    using play_present(2) [OF assms(3-5), of c m] by (simp add: eq s1)
  show "playPauseBtn (snd (playAndOpen c s)) = PAUSE_GLYPH"
    using play_present(3) [OF assms(3-5), of c m] by (simp add: eq s1)
qed

text \<open>
  Claim C7. Closing is idempotent. For every state of the player and every card,
  closing twice in a row leaves the same state as closing once: the track is paused,
  rewound and released, the player is hidden, the button shows the play glyph, no card
  is active, and the card has lost \<open>animate\<close> and \<open>show-text\<close> and carries
  \<open>closing\<close>. The two states differ only in the list of pending timers, where
  the second close has queued one more removal of \<open>closing\<close>; running that
  callback a second time changes nothing.
\<close>

theorem closeCard_idempotent:
  "closeCard c (closeCard c s) =
     (closeCard c s)\<lparr>timeouts := timeouts (closeCard c s) @ [(1000, RemoveClosing c)]\<rparr>
   \<and> audios (closeCard c (closeCard c s)) = audios (closeCard c s)
   \<and> currentAudio (closeCard c (closeCard c s)) = currentAudio (closeCard c s)
   \<and> musicPlayer (closeCard c (closeCard c s)) = musicPlayer (closeCard c s)
   \<and> isPlaying (closeCard c (closeCard c s)) = isPlaying (closeCard c s)
   \<and> playPauseBtn (closeCard c (closeCard c s)) = playPauseBtn (closeCard c s)
   \<and> activeCard (closeCard c (closeCard c s)) = activeCard (closeCard c s)
   \<and> cards (closeCard c (closeCard c s)) = cards (closeCard c s)
   \<and> audios (closeCard c s) =
        (case currentAudio s of
           None \<Rightarrow> audios s
         | Some h \<Rightarrow> (audios s)[h := (audios s ! h)\<lparr>paused := True, currentTime := 0\<rparr>])
   \<and> currentAudio (closeCard c s) = None
   \<and> ''hidden'' \<in> musicPlayer (closeCard c s)
   \<and> \<not> isPlaying (closeCard c s)
   \<and> playPauseBtn (closeCard c s) = PLAY_GLYPH
   \<and> activeCard (closeCard c s) = None
   \<and> classList (cards (closeCard c s) c) =
        insert ''closing'' (classList (cards s c) - {''show-text''} - {''animate''})
   \<and> run_timeout (RemoveClosing c) (run_timeout (RemoveClosing c) (closeCard c (closeCard c s)))
        = run_timeout (RemoveClosing c) (closeCard c (closeCard c s))"
proof -
  have cls: "insert ''closing''
      (insert ''closing'' (classList (cards s c) - {''show-text''} - {''animate''})
         - {''show-text''} - {''animate''})
      = insert ''closing'' (classList (cards s c) - {''show-text''} - {''animate''})"
    by auto
  have twice: "closeCard c (closeCard c s) =
     (closeCard c s)\<lparr>timeouts := timeouts (closeCard c s) @ [(1000, RemoveClosing c)]\<rparr>"
    by (simp add: closeCard_def Let_def stop_idem stop_fields cls)
      (simp add: stopAndHidePlayer_def Let_def insert_absorb split: option.splits)
  have once: "audios (closeCard c s) =
        (case currentAudio s of
           None \<Rightarrow> audios s
         | Some h \<Rightarrow> (audios s)[h := (audios s ! h)\<lparr>paused := True, currentTime := 0\<rparr>])"
    by (simp add: closeCard_fields stop_audios)
  have timer: "run_timeout (RemoveClosing c) (run_timeout (RemoveClosing c) (closeCard c (closeCard c s)))
        = run_timeout (RemoveClosing c) (closeCard c (closeCard c s))"
    by simp
  have f1: "currentAudio (closeCard c s) = None"
    and f2: "''hidden'' \<in> musicPlayer (closeCard c s)"
    and f3: "\<not> isPlaying (closeCard c s)"
    and f4: "playPauseBtn (closeCard c s) = PLAY_GLYPH"
    and f5: "activeCard (closeCard c s) = None"
    and f6: "classList (cards (closeCard c s) c) =
          insert ''closing'' (classList (cards s c) - {''show-text''} - {''animate''})"
    by (simp_all add: closeCard_fields)
  have g1: "audios (closeCard c (closeCard c s)) = audios (closeCard c s)"
    and g2: "currentAudio (closeCard c (closeCard c s)) = currentAudio (closeCard c s)"
    and g3: "musicPlayer (closeCard c (closeCard c s)) = musicPlayer (closeCard c s)"
    and g4: "isPlaying (closeCard c (closeCard c s)) = isPlaying (closeCard c s)"
    and g5: "playPauseBtn (closeCard c (closeCard c s)) = playPauseBtn (closeCard c s)"
    and g6: "activeCard (closeCard c (closeCard c s)) = activeCard (closeCard c s)"
    and g7: "cards (closeCard c (closeCard c s)) = cards (closeCard c s)"
    unfolding twice by simp_all
  show ?thesis
    by (intro conjI twice once timer f1 f2 f3 f4 f5 f6 g1 g2 g3 g4 g5 g6 g7)
qed

text \<open>
  Claim C6, amended. Let card \<open>x\<close> be the open card that the player holds as its
  active card, and let a different, closed card \<open>y\<close> that carries a
  \<open>data-music\<close> track be clicked, on a page that has the song title, the progress
  bar and the time display. Then the click throws nothing; \<open>x\<close> is closed as a
  side effect (it loses \<open>animate\<close> and \<open>show-text\<close>, and carries
  \<open>closing\<close>); \<open>y\<close> is open and is the active card; the current handle is a new
  \<open>Audio\<close> object for the track of \<open>y\<close>, started as far as the host allows;
  every track that existed before is paused and rewound; the player is shown with the
  title of the new track.
\<close>

theorem open_second_card_closes_first:
  assumes "activeCard s = Some x" and "''animate'' \<in> classList (cards s x)"
    and "y \<noteq> x" and "''animate'' \<notin> classList (cards s y)"
    and "data_music (cards s y) = Some m" and "m \<noteq> []"
    and "songTitle s \<noteq> None" and "progressBar s \<noteq> None" and "timeDisplay s \<noteq> None"
    and "one_live_track s"
  shows "fst (handleCardClick y s) = None
    \<and> classList (cards (snd (handleCardClick y s)) x) =
        insert ''closing'' (classList (cards s x) - {''show-text''} - {''animate''})
    \<and> ''animate'' \<notin> classList (cards (snd (handleCardClick y s)) x)
    \<and> classList (cards (snd (handleCardClick y s)) y) = insert ''animate'' (classList (cards s y))
    \<and> activeCard (snd (handleCardClick y s)) = Some y
    \<and> currentAudio (snd (handleCardClick y s)) = Some (length (audios s))
    \<and> length (audios (snd (handleCardClick y s))) = Suc (length (audios s))
    \<and> audios (snd (handleCardClick y s)) ! length (audios s) =
        \<lparr>src = m, volume = 1 / 2, paused = \<not> autoplayAllowed s, currentTime = 0, duration = NaN\<rparr>
    \<and> (\<forall>h \<in> {0..<length (audios s)}. released (audios (snd (handleCardClick y s)) ! h))
    \<and> one_live_track (snd (handleCardClick y s))
    \<and> isPlaying (snd (handleCardClick y s))
    \<and> ''hidden'' \<notin> musicPlayer (snd (handleCardClick y s))
    \<and> songTitle (snd (handleCardClick y s)) = Some (last_segment m)
    \<and> playPauseBtn (snd (handleCardClick y s)) = PAUSE_GLYPH"
proof -
  define k where "k = closeCard x s"
  have inner: "handleCardClick x s = (None, k)"
    using assms(1,2) by (simp add: handleCardClick_direct k_def)
  have click: "handleCardClick y s = playAndOpen y k"
    using assms(3,4) by (simp add: handleCardClick_other [OF assms(1)] inner)
  have ky: "cards k y = cards s y"
    using assms(3) by (simp add: k_def closeCard_fields)
  have kx: "classList (cards k x) =
      insert ''closing'' (classList (cards s x) - {''show-text''} - {''animate''})"
    by (simp add: k_def closeCard_fields)
  have music: "data_music (cards k y) = Some m" using assms(5) by (simp add: ky)
  have present: "songTitle k \<noteq> None" "progressBar k \<noteq> None" "timeDisplay k \<noteq> None"
    using assms(7-9) by (simp_all add: k_def closeCard_fields)
  have klen: "length (audios k) = length (audios s)"
    by (simp add: k_def closeCard_fields stop_fields)
  have kauto: "autoplayAllowed k = autoplayAllowed s"
    by (simp add: k_def closeCard_fields)
  have kone: "one_live_track k"
    unfolding k_def using assms(10) by (rule closeCard_tracks)
  note ok = playAndOpen_present [OF music assms(6) present]
  note mu = playAndOpen_music [OF music assms(6)]
  have tracks: "audios (snd (playAndOpen y k)) =
      audios (stopAndHidePlayer k) @
        [\<lparr>src = m, volume = 1 / 2, paused = \<not> autoplayAllowed s, currentTime = 0, duration = NaN\<rparr>]"
    by (simp add: mu play_audios kauto)
  have c1: "fst (handleCardClick y s) = None"
    unfolding click by (rule ok)
  have c2: "classList (cards (snd (handleCardClick y s)) x) =
        insert ''closing'' (classList (cards s x) - {''show-text''} - {''animate''})"
    unfolding click using assms(3) by (simp add: ok kx)
  have c3: "''animate'' \<notin> classList (cards (snd (handleCardClick y s)) x)"
    unfolding c2 by simp
  have c4: "classList (cards (snd (handleCardClick y s)) y) = insert ''animate'' (classList (cards s y))"
    unfolding click by (simp add: ok ky)
  have c5: "activeCard (snd (handleCardClick y s)) = Some y"
    unfolding click by (rule mu)
  have c6: "currentAudio (snd (handleCardClick y s)) = Some (length (audios s))"
    unfolding click by (simp add: mu klen)
  have c7: "length (audios (snd (handleCardClick y s))) = Suc (length (audios s))"
    unfolding click by (simp add: tracks stop_fields klen)
  have c8: "audios (snd (handleCardClick y s)) ! length (audios s) =
        \<lparr>src = m, volume = 1 / 2, paused = \<not> autoplayAllowed s, currentTime = 0, duration = NaN\<rparr>"
    unfolding click tracks by (rule nth_last) (simp add: stop_fields klen)
  have c9: "\<forall>h \<in> {0..<length (audios s)}. released (audios (snd (handleCardClick y s)) ! h)"
    unfolding click tracks
    using stop_released [OF kone] by (simp add: nth_append stop_fields klen)
  have c10: "one_live_track (snd (handleCardClick y s))"
    using handleCardClick_tracks [OF assms(10), of y] by simp
  have c11: "isPlaying (snd (handleCardClick y s))"
    unfolding click by (rule mu)
  have c12: "''hidden'' \<notin> musicPlayer (snd (handleCardClick y s))"
    unfolding click by (simp add: mu)
  have c13: "songTitle (snd (handleCardClick y s)) = Some (last_segment m)"
    unfolding click by (rule ok)
  have c14: "playPauseBtn (snd (handleCardClick y s)) = PAUSE_GLYPH"
    unfolding click by (rule ok)
  show ?thesis
    by (intro conjI c1 c2 c3 c4 c5 c6 c7 c8 c9 c10 c11 c12 c13 c14)
qed

lemma example_first_click:
  "handleCardClick 0 example_player =
     (None,
      example_player\<lparr>musicPlayer := {}, playPauseBtn := PAUSE_GLYPH,
        timeDisplay := Some (Some ''0:00 / NaN:NaN''), songTitle := Some ''a.mp3'',
        cards := (card_els example_page)
          (0 := \<lparr>data_music = Some ''music/a.mp3'', classList = {''animate'', ''card''}\<rparr>),
        audios := [\<lparr>src = ''music/a.mp3'', volume = 1 / 2, paused = False, currentTime = 0,
                    duration = NaN\<rparr>],
        currentAudio := Some 0, isPlaying := True, activeCard := Some 0,
        timeouts := [(1200, AddShowText 0)], animationFrames := 1\<rparr>)"
  by (simp add: handleCardClick_direct example_player_def example_page_def playAndOpen_def
      playCardMusic_def stopAndHidePlayer_def updateProgress_def progress_value_def
      time_label_def formatTime_zero last_segment_def padStart_def Let_def insert_commute
      del: formatTime.simps(4))

lemma example_playing_state:
  "example_playing =
      example_player\<lparr>musicPlayer := {}, playPauseBtn := PAUSE_GLYPH,
        timeDisplay := Some (Some ''0:00 / NaN:NaN''), songTitle := Some ''a.mp3'',
        cards := (card_els example_page)
          (0 := \<lparr>data_music = Some ''music/a.mp3'', classList = {''animate'', ''card''}\<rparr>),
        audios := [\<lparr>src = ''music/a.mp3'', volume = 1 / 2, paused = False, currentTime = 0,
                    duration = NaN\<rparr>],
        currentAudio := Some 0, isPlaying := True, activeCard := Some 0,
        timeouts := [(1200, AddShowText 0)], animationFrames := 1\<rparr>"
  by (simp add: example_playing_def example_first_click)

text \<open>
  Claim C6 speaks of every pair of distinct cards. The script opens a card without a
  \<open>data-music\<close> track too (\<open>if (musicSrc)\<close>), and such a card never becomes the
  active card. On the example page, with card 0 open and active, a click on card 2
  (no track) closes card 0 and opens card 2, but no card is active afterwards and no
  track is current. And with card 2 open, a click on card 0 makes card 0 the active
  card while card 2 stays open.
\<close>

theorem open_card_without_track_counterexample:
  "activeCard example_playing = Some 0
   \<and> ''animate'' \<in> classList (cards example_playing 0)
   \<and> ''animate'' \<notin> classList (cards example_playing 2)
   \<and> fst (handleCardClick 2 example_playing) = None
   \<and> ''animate'' \<notin> classList (cards (snd (handleCardClick 2 example_playing)) 0)
   \<and> ''animate'' \<in> classList (cards (snd (handleCardClick 2 example_playing)) 2)
   \<and> activeCard (snd (handleCardClick 2 example_playing)) = None
   \<and> currentAudio (snd (handleCardClick 2 example_playing)) = None
   \<and> ''animate'' \<in> classList (cards (snd (handleCardClick 2 example_player)) 2)
   \<and> activeCard (snd (handleCardClick 2 example_player)) = None
   \<and> fst (handleCardClick 0 (snd (handleCardClick 2 example_player))) = None
   \<and> activeCard (snd (handleCardClick 0 (snd (handleCardClick 2 example_player)))) = Some 0
   \<and> ''animate'' \<in> classList (cards (snd (handleCardClick 0 (snd (handleCardClick 2 example_player)))) 2)"
proof -
  have open2: "handleCardClick 2 example_player =
      (None,
       example_player\<lparr>cards := (card_els example_page)
           (2 := \<lparr>data_music = None, classList = {''animate'', ''card''}\<rparr>),
         timeouts := [(1200, AddShowText 2)]\<rparr>)"
    by (simp add: handleCardClick_direct example_player_def example_page_def playAndOpen_def
        insert_commute)
  have a: "activeCard example_playing = Some 0"
    and b: "''animate'' \<in> classList (cards example_playing 0)"
    and c: "''animate'' \<notin> classList (cards example_playing 2)"
    by (simp_all add: example_playing_state example_player_def example_page_def)
  have click: "handleCardClick 2 example_playing = playAndOpen 2 (closeCard 0 example_playing)"
    using a b c by (simp add: handleCardClick_other [of _ 0] handleCardClick_direct)
  have after: "playAndOpen 2 (closeCard 0 example_playing) =
      (None,
       (closeCard 0 example_playing)\<lparr>cards := (cards (closeCard 0 example_playing))
           (2 := (cards (closeCard 0 example_playing) 2)\<lparr>classList :=
              insert ''animate'' (classList (cards (closeCard 0 example_playing) 2))\<rparr>),
         timeouts := timeouts (closeCard 0 example_playing) @ [(1200, AddShowText 2)]\<rparr>)"
    by (simp add: playAndOpen_def closeCard_fields example_playing_state example_player_def
        example_page_def)
  have d: "fst (handleCardClick 2 example_playing) = None"
    and e: "''animate'' \<notin> classList (cards (snd (handleCardClick 2 example_playing)) 0)"
    and f: "''animate'' \<in> classList (cards (snd (handleCardClick 2 example_playing)) 2)"
    and g: "activeCard (snd (handleCardClick 2 example_playing)) = None"
    and h: "currentAudio (snd (handleCardClick 2 example_playing)) = None"
    unfolding click after by (simp_all add: closeCard_fields)
  define s2 where "s2 = snd (handleCardClick 2 example_player)"
  have s2: "s2 = example_player\<lparr>cards := (card_els example_page)
           (2 := \<lparr>data_music = None, classList = {''animate'', ''card''}\<rparr>),
         timeouts := [(1200, AddShowText 2)]\<rparr>"
    unfolding s2_def open2 by simp
  have i: "''animate'' \<in> classList (cards (snd (handleCardClick 2 example_player)) 2)"
    and j: "activeCard (snd (handleCardClick 2 example_player)) = None"
    unfolding s2_def [symmetric] by (simp_all add: s2 example_player_def)
  have none: "activeCard s2 = None \<or> activeCard s2 = Some 0"
    and closed: "''animate'' \<notin> classList (cards s2 0)"
    and music: "data_music (cards s2 0) = Some ''music/a.mp3''"
    and ne: "''music/a.mp3'' \<noteq> []"
    and present: "songTitle s2 \<noteq> None" "progressBar s2 \<noteq> None" "timeDisplay s2 \<noteq> None"
    and open2': "''animate'' \<in> classList (cards s2 2)"
    by (simp_all add: s2 example_player_def example_page_def)
  have click0: "handleCardClick 0 s2 = playAndOpen 0 s2"
    using closed by (simp add: handleCardClick_direct [OF none])
  have k: "fst (handleCardClick 0 (snd (handleCardClick 2 example_player))) = None"
    unfolding s2_def [symmetric] click0 by (rule playAndOpen_present [OF music ne present])
  have l: "activeCard (snd (handleCardClick 0 (snd (handleCardClick 2 example_player)))) = Some 0"
    unfolding s2_def [symmetric] click0 by (rule playAndOpen_music [OF music ne])
  have m: "''animate'' \<in> classList (cards (snd (handleCardClick 0 (snd (handleCardClick 2 example_player)))) 2)"
    unfolding s2_def [symmetric] click0
    using open2' by (simp add: playAndOpen_present [OF music ne present])
  show ?thesis by (intro conjI a b c d e f g h i j k l m)
qed

theorem open_second_card_closes_first_witness:
  "activeCard example_playing = Some 0
   \<and> ''animate'' \<in> classList (cards example_playing 0)
   \<and> (1::nat) \<noteq> 0
   \<and> ''animate'' \<notin> classList (cards example_playing 1)
   \<and> data_music (cards example_playing 1) = Some ''music/b.mp3''
   \<and> ''music/b.mp3'' \<noteq> []
   \<and> songTitle example_playing \<noteq> None
   \<and> progressBar example_playing \<noteq> None
   \<and> timeDisplay example_playing \<noteq> None
   \<and> one_live_track example_playing
   \<and> fst (handleCardClick 1 example_playing) = None
   \<and> ''animate'' \<notin> classList (cards (snd (handleCardClick 1 example_playing)) 0)
   \<and> activeCard (snd (handleCardClick 1 example_playing)) = Some 1
   \<and> currentAudio (snd (handleCardClick 1 example_playing)) = Some 1
   \<and> released (audios (snd (handleCardClick 1 example_playing)) ! 0)"
proof -
  have h1: "activeCard example_playing = Some 0"
    and h2: "''animate'' \<in> classList (cards example_playing 0)"
    and h3: "(1::nat) \<noteq> 0"
    and h4: "''animate'' \<notin> classList (cards example_playing 1)"
    and h5: "data_music (cards example_playing 1) = Some ''music/b.mp3''"
    and h6: "''music/b.mp3'' \<noteq> []"
    and h7: "songTitle example_playing \<noteq> None"
    and h8: "progressBar example_playing \<noteq> None"
    and h9: "timeDisplay example_playing \<noteq> None"
    by (simp_all add: example_playing_state example_player_def example_page_def)
  have h10: "one_live_track example_playing"
    by (simp add: example_playing_state example_player_def one_live_track_def)
  have len: "length (audios example_playing) = 1"
    by (simp add: example_playing_state example_player_def)
  note r = open_second_card_closes_first [OF h1 h2 h3 h4 h5 h6 h7 h8 h9 h10]
  from r have c1: "fst (handleCardClick 1 example_playing) = None" by (rule conjunct1)
  from r have c2: "''animate'' \<notin> classList (cards (snd (handleCardClick 1 example_playing)) 0)"
    by blast
  from r have c3: "activeCard (snd (handleCardClick 1 example_playing)) = Some 1" by blast
  from r have c4: "currentAudio (snd (handleCardClick 1 example_playing)) = Some 1"
    unfolding len by blast
  from r have "\<forall>h \<in> {0..<length (audios example_playing)}.
      released (audios (snd (handleCardClick 1 example_playing)) ! h)" by blast
  then have c5: "released (audios (snd (handleCardClick 1 example_playing)) ! 0)"
    unfolding len by simp
  show ?thesis
    by (intro conjI h1 h2 h3 h4 h5 h6 h7 h8 h9 h10 c1 c2 c3 c4 c5)
qed

text \<open>
  Claim C1. After every sequence of card clicks on a loaded page, the single-track
  discipline holds and at most one track is playing; this is so for every page, also
  when a handler run ends in an exception. Each single click keeps the discipline,
  loses no track, and whenever it has created a new handle, every track that existed
  before the click is paused and rewound, and none of them is the current one.
\<close>

theorem one_track_after_every_click:
  "(musicPlayerController pg = (r, Some s0) \<longrightarrow>
      one_live_track (clicks cs s0) \<and> length (live_tracks (clicks cs s0)) \<le> 1)
   \<and> (one_live_track s \<longrightarrow>
        one_live_track (snd (handleCardClick c s))
        \<and> length (live_tracks (snd (handleCardClick c s))) \<le> 1
        \<and> length (audios s) \<le> length (audios (snd (handleCardClick c s)))
        \<and> (length (audios s) < length (audios (snd (handleCardClick c s))) \<longrightarrow>
             (\<forall>h \<in> {0..<length (audios s)}. released (audios (snd (handleCardClick c s)) ! h))))"
proof (intro conjI impI)
  assume "musicPlayerController pg = (r, Some s0)"
  then have "one_live_track s0" by (rule loaded_tracks)
  then show a: "one_live_track (clicks cs s0)" by (rule clicks_tracks)
  then show "length (live_tracks (clicks cs s0)) \<le> 1" by (rule one_live_track_live)
next
  assume s: "one_live_track s"
  from handleCardClick_tracks [OF s, of c]
  show b: "one_live_track (snd (handleCardClick c s))" by (rule conjunct1)
  then show "length (live_tracks (snd (handleCardClick c s))) \<le> 1" by (rule one_live_track_live)
  from handleCardClick_tracks [OF s, of c]
  have t: "tears_down s (snd (handleCardClick c s))" by (rule conjunct2)
  then show "length (audios s) \<le> length (audios (snd (handleCardClick c s)))"
    by (simp add: tears_down_def)
  assume "length (audios s) < length (audios (snd (handleCardClick c s)))"
  with t show "\<forall>h \<in> {0..<length (audios s)}. released (audios (snd (handleCardClick c s)) ! h)"
    by (simp add: tears_down_def)
qed

theorem one_track_after_every_click_witness:
  "musicPlayerController example_page = (None, Some example_player)
   \<and> length (live_tracks (clicks [0, 1, 2, 1] example_player)) \<le> 1
   \<and> one_live_track example_playing
   \<and> length (audios example_playing) < length (audios (snd (handleCardClick 1 example_playing)))
   \<and> released (audios (snd (handleCardClick 1 example_playing)) ! 0)"
proof -
  have h: "musicPlayerController example_page = (None, Some example_player)"
    by (simp add: musicPlayerController_def example_page_def example_player_def)
  have o: "one_live_track example_playing"
    by (simp add: example_playing_state example_player_def one_live_track_def)
  have len: "length (audios example_playing) = 1"
    by (simp add: example_playing_state example_player_def)
  from one_track_after_every_click [of example_page None example_player "[0, 1, 2, 1]"] h
  have a: "length (live_tracks (clicks [0, 1, 2, 1] example_player)) \<le> 1" by blast
  from one_track_after_every_click [of _ _ _ _ example_playing 1] o
  have b: "length (audios example_playing) \<le> length (audios (snd (handleCardClick 1 example_playing)))"
    and c: "length (audios example_playing) < length (audios (snd (handleCardClick 1 example_playing)))
      \<longrightarrow> (\<forall>h \<in> {0..<length (audios example_playing)}.
            released (audios (snd (handleCardClick 1 example_playing)) ! h))"
    by blast+
  have grow: "length (audios example_playing) < length (audios (snd (handleCardClick 1 example_playing)))"
    by (simp add: example_playing_state example_player_def example_page_def
        handleCardClick_other [of _ 0] handleCardClick_direct closeCard_fields stop_fields
        playAndOpen_music play_audios)
  with c have "\<forall>h \<in> {0..<length (audios example_playing)}.
      released (audios (snd (handleCardClick 1 example_playing)) ! h)" by blast
  then have d: "released (audios (snd (handleCardClick 1 example_playing)) ! 0)"
    unfolding len by simp
  show ?thesis by (intro conjI h a o grow d)
qed

text \<open>
  Claim C3 says that a controller whose elements are absent degrades to a silent no-op
  and never throws. The guards of the script cover the player element, the play/pause
  button and the overlay only. On the example page without its song title, the
  controller loads and a click on card 0 throws a \<open>TypeError\<close>; without its
  progress bar, loading the controller throws; on the example overlay without the
  name element, or without the role element, opening a known profile throws.
\<close>

theorem missing_element_throws:
  "musicPlayerController (example_page\<lparr>song_title_el := None\<rparr>)
     = (None, Some (example_player\<lparr>songTitle := None\<rparr>))
   \<and> fst (handleCardClick 0 (example_player\<lparr>songTitle := None\<rparr>)) = Some TypeError
   \<and> fst (musicPlayerController (example_page\<lparr>progress_bar_el := None\<rparr>)) = Some TypeError
   \<and> fst (openOverlay ''Angelo Jesus Y. Caballero'' (example_overlay\<lparr>profileName := None\<rparr>))
       = Some TypeError
   \<and> fst (openOverlay ''Angelo Jesus Y. Caballero'' (example_overlay\<lparr>profileRole := None\<rparr>))
       = Some TypeError"
proof -
  have a: "musicPlayerController (example_page\<lparr>song_title_el := None\<rparr>)
     = (None, Some (example_player\<lparr>songTitle := None\<rparr>))"
    by (simp add: musicPlayerController_def example_page_def example_player_def)
  have b: "fst (handleCardClick 0 (example_player\<lparr>songTitle := None\<rparr>)) = Some TypeError"
    by (simp add: handleCardClick_direct example_player_def example_page_def playAndOpen_music
        play_absent_title)
  have c: "fst (musicPlayerController (example_page\<lparr>progress_bar_el := None\<rparr>)) = Some TypeError"
    by (simp add: musicPlayerController_def example_page_def)
  have d: "fst (openOverlay ''Angelo Jesus Y. Caballero'' (example_overlay\<lparr>profileName := None\<rparr>))
       = Some TypeError"
    by (simp add: openOverlay_def memberData_get_def memberData_def example_overlay_def Let_def)
  have e: "fst (openOverlay ''Angelo Jesus Y. Caballero'' (example_overlay\<lparr>profileRole := None\<rparr>))
       = Some TypeError"
    by (simp add: openOverlay_def memberData_get_def memberData_def example_overlay_def Let_def)
  show ?thesis by (intro conjI a b c d e)
qed

section \<open>Properties of the profile overlay\<close>

lemma memberData_get_own: "map_of memberData name = Some d \<Longrightarrow> memberData_get name = Own d"
  by (simp add: memberData_get_def)

lemma openOverlay_hit:
  assumes "map_of memberData name = Some d" and "overlay p = Some cls"
    and "profileName p \<noteq> None" and "profileRole p \<noteq> None"
  shows "openOverlay name p =
    (None,
     p\<lparr>profileName := Some name,
       profileRole := Some (role d),
       profileModel := set_if_present (model d) (profileModel p),
       bioBday := set_if_present (Bday d) (bioBday p),
       bioContact := set_if_present (Contact d) (bioContact p),
       bioSpecialty := set_if_present (Specialty d) (bioSpecialty p),
       statGender := set_if_present (gender (stats d)) (statGender p),
       statAge := set_if_present (age (stats d)) (statAge p),
       statHeight := set_if_present (height (stats d)) (statHeight p),
       statWeight := set_if_present (weight (stats d)) (statWeight p),
       overlay := Some (insert ''active'' cls)\<rparr>)"
  using assms
  by (auto simp: openOverlay_def memberData_get_own field_def as_textContent_def
      as_attribute_def Let_def)

lemma openOverlay_undefined:
  "memberData_get name = Undefined \<Longrightarrow> openOverlay name p = (None, p)"
  by (simp add: openOverlay_def)

lemma memberData_Caballero:
  "map_of memberData ''Angelo Jesus Y. Caballero'' =
     Some \<lparr>model = ''model/source/Caballero.glb'', role = ''| FULL STACK DEVELOPER |'',
           Bday = ''03/18/2006'', Contact = ''ajcaballero@kld.edu.ph'', Specialty = ''FullStack'',
           stats = \<lparr>gender = ''Male'', age = ''19'', height = ''175cm'', weight = ''60kg''\<rparr>\<rparr>"
  by (simp add: memberData_def)

lemma memberData_unknown: "memberData_get ''Unknown Person'' = Undefined"
  by (simp add: memberData_get_def memberData_def Object_prototype_names_def)

lemma memberData_constructor: "memberData_get ''constructor'' = Inherited"
  by (simp add: memberData_get_def memberData_def Object_prototype_names_def)

lemma example_overlay_Caballero:
  "openOverlay ''Angelo Jesus Y. Caballero'' example_overlay =
     (None,
      \<lparr>overlay = Some {''active''}, profileModel = Some ''model/source/Caballero.glb'',
       profileName = Some ''Angelo Jesus Y. Caballero'',
       profileRole = Some ''| FULL STACK DEVELOPER |'', bioBday = Some ''03/18/2006'',
       bioContact = Some ''ajcaballero@kld.edu.ph'', bioSpecialty = Some ''FullStack'',
       statGender = Some ''Male'', statAge = Some ''19'', statHeight = Some ''175cm'',
       statWeight = Some ''60kg''\<rparr>)"
  using openOverlay_hit [OF memberData_Caballero, of example_overlay "{}"]
  by (simp add: example_overlay_def set_if_present_def)

text \<open>
  Claim C9 says that on a miss \<open>openOverlay\<close> is a no-op that leaves the overlay as
  it was. On the example overlay the two examples of the specification hold: the
  profile of \<open>"Angelo Jesus Y. Caballero"\<close> is shown with the role
  \<open>"| FULL STACK DEVELOPER |"\<close> and the age \<open>"19"\<close>, and
  \<open>"Unknown Person"\<close> changes nothing. The name \<open>constructor\<close> is not in the
  table either, but the lookup finds the function the table inherits: with that
  profile on display, \<open>openOverlay("constructor")\<close> overwrites the name, blanks the
  role and the three lines of the biography, sets the model source to
  \<open>undefined\<close>, and throws a \<open>TypeError\<close> when it reads \<open>stats.gender\<close>. On
  a page without the four statistics elements it throws nothing and marks the overlay
  active.
\<close>

theorem openOverlay_inherited_name:
  "profileRole (snd (openOverlay ''Angelo Jesus Y. Caballero'' example_overlay))
     = Some ''| FULL STACK DEVELOPER |''
   \<and> statAge (snd (openOverlay ''Angelo Jesus Y. Caballero'' example_overlay)) = Some ''19''
   \<and> openOverlay ''Unknown Person'' example_overlay = (None, example_overlay)
   \<and> openOverlay ''constructor'' (snd (openOverlay ''Angelo Jesus Y. Caballero'' example_overlay)) =
       (Some TypeError,
        \<lparr>overlay = Some {''active''}, profileModel = Some ''undefined'',
         profileName = Some ''constructor'', profileRole = Some [], bioBday = Some [],
         bioContact = Some [], bioSpecialty = Some [],
         statGender = Some ''Male'', statAge = Some ''19'', statHeight = Some ''175cm'',
         statWeight = Some ''60kg''\<rparr>)
   \<and> openOverlay ''constructor''
         (example_overlay\<lparr>statGender := None, statAge := None, statHeight := None,
            statWeight := None\<rparr>) =
       (None,
        \<lparr>overlay = Some {''active''}, profileModel = Some ''undefined'',
         profileName = Some ''constructor'', profileRole = Some [], bioBday = Some [],
         bioContact = Some [], bioSpecialty = Some [],
         statGender = None, statAge = None, statHeight = None, statWeight = None\<rparr>)"
proof -
  have a: "profileRole (snd (openOverlay ''Angelo Jesus Y. Caballero'' example_overlay))
     = Some ''| FULL STACK DEVELOPER |''"
    and b: "statAge (snd (openOverlay ''Angelo Jesus Y. Caballero'' example_overlay)) = Some ''19''"
    by (simp_all add: example_overlay_Caballero)
  have c: "openOverlay ''Unknown Person'' example_overlay = (None, example_overlay)"
    using memberData_unknown by (rule openOverlay_undefined)
  have d: "openOverlay ''constructor'' (snd (openOverlay ''Angelo Jesus Y. Caballero'' example_overlay)) =
       (Some TypeError,
        \<lparr>overlay = Some {''active''}, profileModel = Some ''undefined'',
         profileName = Some ''constructor'', profileRole = Some [], bioBday = Some [],
         bioContact = Some [], bioSpecialty = Some [],
         statGender = Some ''Male'', statAge = Some ''19'', statHeight = Some ''175cm'',
         statWeight = Some ''60kg''\<rparr>)"
    unfolding example_overlay_Caballero
    by (simp add: openOverlay_def memberData_constructor field_def
        as_textContent_def as_attribute_def set_if_present_def Let_def)
  have e: "openOverlay ''constructor''
         (example_overlay\<lparr>statGender := None, statAge := None, statHeight := None,
            statWeight := None\<rparr>) =
       (None,
        \<lparr>overlay = Some {''active''}, profileModel = Some ''undefined'',
         profileName = Some ''constructor'', profileRole = Some [], bioBday = Some [],
         bioContact = Some [], bioSpecialty = Some [],
         statGender = None, statAge = None, statHeight = None, statWeight = None\<rparr>)"
    by (simp add: example_overlay_def openOverlay_def memberData_constructor field_def
        as_textContent_def as_attribute_def set_if_present_def Let_def)
  show ?thesis by (intro conjI a b c d e)
qed

end
